theory Spec2Isabelle
  imports Main "HOL-Library.Sublist"
begin

section \<open>JavaScript strings\<close>

text \<open>
  A JavaScript string is a sequence of UTF-16 code units. For the texts the program is
  given and the texts it writes the model uses \<^typ>\<open>string\<close>, whose characters are the
  code units U+0000 to U+00FF (Latin-1); every string literal of the program and every
  network name lies in that range. The strings inside a value that \<^verbatim>\<open>JSON.parse\<close> returns
  are sequences of code units as numbers (see \<open>code_units\<close> below): an escape
  \<^verbatim>\<open>\uXXXX\<close> in a text of that range writes any code unit up to U+FFFF.
\<close>

text \<open>
  \<^verbatim>\<open>String.prototype.toLowerCase\<close> maps each code unit on its own in this range: A--Z
  and the upper-case letters of Latin-1 (U+00C0 to U+00DE without the multiplication
  sign U+00D7) go to the letter 32 places up, every other code unit stays.
\<close>

definition code_unit :: "char \<Rightarrow> nat" where
  "code_unit c = of_char c"

definition lower_char :: "char \<Rightarrow> char" where
  "lower_char c =
     (let n = code_unit c
      in if (65 \<le> n \<and> n \<le> 90) \<or> (192 \<le> n \<and> n \<le> 222 \<and> n \<noteq> 215)
         then char_of (n + 32) else c)"

definition toLowerCase :: "string \<Rightarrow> string" where
  "toLowerCase s = map lower_char s"

text \<open>\<^verbatim>\<open>s.startsWith(t)\<close>, and \<^verbatim>\<open>s.includes(t)\<close> as the left-to-right search it is.\<close>

fun startsWith :: "string \<Rightarrow> string \<Rightarrow> bool" where
  "startsWith s [] = True"
| "startsWith [] (d # t) = False"
| "startsWith (c # s) (d # t) = (c = d \<and> startsWith s t)"

fun str_includes :: "string \<Rightarrow> string \<Rightarrow> bool" where
  "str_includes [] t = (t = [])"
| "str_includes (c # s) t = (startsWith (c # s) t \<or> str_includes s t)"

text \<open>
  The specification's notion, to compare \<open>str_includes\<close> with: \<open>t\<close> occurs in \<open>s\<close> when
  \<open>s\<close> is some text, then \<open>t\<close>, then some text.
\<close>

definition occurs_in :: "string \<Rightarrow> string \<Rightarrow> bool" where
  "occurs_in t s = (\<exists>pre post. s = pre @ t @ post)"

text \<open>
  The white space of the language (what \<^verbatim>\<open>trim\<close> strips and what \<^verbatim>\<open>\s\<close> matches in a
  regular expression), in this range: tab, line feed, vertical tab, form feed, carriage
  return, space and no-break space. The line terminators, which \<^verbatim>\<open>.\<close> does not
  match, are line feed and carriage return.
\<close>

definition is_space :: "char \<Rightarrow> bool" where
  "is_space c = (c \<in> set [CHR 0x09, CHR 0x0A, CHR 0x0B, CHR 0x0C, CHR 0x0D, CHR 0x20, CHR 0xA0])"

definition is_line_terminator :: "char \<Rightarrow> bool" where
  "is_line_terminator c = (c = CHR 0x0A \<or> c = CHR 0x0D)"

definition is_digit :: "char \<Rightarrow> bool" where
  "is_digit c = (c \<in> set ''0123456789'')"

definition is_hex_digit :: "char \<Rightarrow> bool" where
  "is_hex_digit c = (c \<in> set ''0123456789abcdefABCDEF'')"

definition trim :: "string \<Rightarrow> string" where
  "trim s = rev (dropWhile is_space (rev (dropWhile is_space s)))"

definition LF :: char where
  "LF = CHR 0x0A"

definition backtick :: char where
  "backtick = CHR 0x60"

definition double_quote :: char where
  "double_quote = CHR 0x22"

definition single_quote :: char where
  "single_quote = CHR 0x27"

definition backslash :: char where
  "backslash = CHR 0x5C"

text \<open>
  A string of any code units, U+0000 to U+FFFF, each as its number; \<open>units\<close> takes a
  string of the range above to its code units.
\<close>

type_synonym code_units = "int list"

definition units :: "string \<Rightarrow> code_units" where
  "units s = map of_char s"

text \<open>
  White space and line terminators in all of the range (what \<^verbatim>\<open>\s\<close> matches), and the
  digits and letters \<^verbatim>\<open>[a-fA-F0-9]\<close>. With the flag \<^verbatim>\<open>i\<close> a letter of a pattern matches
  its other case; no code unit above U+007F is taken for an ASCII letter.
\<close>

definition is_space_unit :: "int \<Rightarrow> bool" where
  "is_space_unit u =
     (u \<in> set [0x09, 0x0A, 0x0B, 0x0C, 0x0D, 0x20, 0xA0, 0x1680, 0x2028, 0x2029, 0x202F,
               0x205F, 0x3000, 0xFEFF]
      \<or> (0x2000 \<le> u \<and> u \<le> 0x200A))"

definition is_hex_unit :: "int \<Rightarrow> bool" where
  "is_hex_unit u = (u \<in> set (units ''0123456789abcdefABCDEF''))"

definition same_letter :: "int \<Rightarrow> char \<Rightarrow> bool" where
  "same_letter u c = (u = of_char c \<or> u = of_char (lower_char c))"

section \<open>Exceptions\<close>

text \<open>
  Every value this program throws or catches is an \<^verbatim>\<open>Error\<close> object, and the program
  reads nothing of it but \<^verbatim>\<open>message\<close>. \<open>Error\<close> is one made with \<^verbatim>\<open>new Error(msg)\<close>
  or raised by the chain client library; \<open>SyntaxError\<close> is what \<^verbatim>\<open>JSON.parse\<close> throws
  and \<open>TypeError\<close> what the engine throws on a property of \<^verbatim>\<open>null\<close> or
  \<^verbatim>\<open>undefined\<close>, on a call of a non-function or on an object that has no string
  form. The texts of the last two are the engine's (V8's wording, the parser's
  shortened to one text); the program only compares them with its own marker message.
\<close>

datatype exn = Error string | SyntaxError string | TypeError string

fun message :: "exn \<Rightarrow> string" where
  "message (Error m) = m"
| "message (SyntaxError m) = m"
| "message (TypeError m) = m"

section \<open>JSON values and \<^verbatim>\<open>JSON.parse\<close>\<close>

text \<open>
  The values \<^verbatim>\<open>JSON.parse\<close> returns. A number is kept as the decimal the text wrote,
  \<open>JNumber m e\<close> for \<open>m * 10 ^ e\<close>; the program uses a number only for its
  truthiness. A string and the key of a property are code units. An object is its own
  properties with their values, in the order of the text; a key written twice keeps its
  place and takes the later value. The programs read properties by name and never
  enumerate a parsed object.
\<close>

datatype jsval =
    JNull
  | JBool bool
  | JNumber int int
  | JString code_units
  | JArray "jsval list"
  | JObject "(code_units \<times> jsval) list"

fun set_property :: "code_units \<Rightarrow> jsval \<Rightarrow> (code_units \<times> jsval) list \<Rightarrow> (code_units \<times> jsval) list" where
  "set_property k v [] = [(k, v)]"
| "set_property k v ((k', v') # kvs) =
     (if k = k' then (k, v) # kvs else (k', v') # set_property k v kvs)"

definition json_ws :: "char \<Rightarrow> bool" where
  "json_ws c = (c \<in> set [CHR 0x20, CHR 0x09, CHR 0x0A, CHR 0x0D])"

definition digit_val :: "char \<Rightarrow> int" where
  "digit_val c = of_char c - 48"

definition digits_val :: "string \<Rightarrow> int" where
  "digits_val ds = foldl (\<lambda>a c. 10 * a + digit_val c) 0 ds"

definition hex_val :: "char \<Rightarrow> int option" where
  "hex_val c =
     (if is_digit c then Some (of_char c - 48)
      else if c \<in> set ''abcdef'' then Some (of_char c - 87)
      else if c \<in> set ''ABCDEF'' then Some (of_char c - 55)
      else None)"

definition hex4 :: "char \<Rightarrow> char \<Rightarrow> char \<Rightarrow> char \<Rightarrow> int option" where
  "hex4 a b c d =
     (case (hex_val a, hex_val b, hex_val c, hex_val d) of
        (Some x, Some y, Some z, Some w) \<Rightarrow> Some (((x * 16 + y) * 16 + z) * 16 + w)
      | _ \<Rightarrow> None)"

definition escape_char :: "char \<Rightarrow> char option" where
  "escape_char e =
     (if e = double_quote \<or> e = backslash \<or> e = CHR ''/'' then Some e
      else if e = CHR ''b'' then Some (CHR 0x08)
      else if e = CHR ''f'' then Some (CHR 0x0C)
      else if e = CHR ''n'' then Some (CHR 0x0A)
      else if e = CHR ''r'' then Some (CHR 0x0D)
      else if e = CHR ''t'' then Some (CHR 0x09)
      else None)"

text \<open>
  A string, read from behind its opening quote up to the closing one: the code units of
  the contents and the rest of the text. A control character is refused, an escape is
  decoded; \<^verbatim>\<open>\uXXXX\<close> is the code unit with that number, whatever it is.
\<close>

fun json_string :: "string \<Rightarrow> (code_units \<times> string) option" where
  "json_string [] = None"
| "json_string (c # cs) =
     (if c = double_quote then Some ([], cs)
      else if c = backslash then
        (case cs of
           [] \<Rightarrow> None
         | e # r \<Rightarrow>
             if e = CHR ''u'' then
               (case r of
                  h1 # h2 # h3 # h4 # r' \<Rightarrow>
                    (case hex4 h1 h2 h3 h4 of
                       None \<Rightarrow> None
                     | Some n \<Rightarrow>
                         (case json_string r' of
                            None \<Rightarrow> None
                          | Some (s, rest) \<Rightarrow> Some (n # s, rest)))
                | _ \<Rightarrow> None)
             else
               (case escape_char e of
                  None \<Rightarrow> None
                | Some d \<Rightarrow>
                    (case json_string r of
                       None \<Rightarrow> None
                     | Some (s, rest) \<Rightarrow> Some (of_char d # s, rest))))
      else if (of_char c :: int) < 32 then None
      else (case json_string cs of
              None \<Rightarrow> None
            | Some (s, rest) \<Rightarrow> Some (of_char c # s, rest)))"

text \<open>
  A number: an optional minus, an integer part without a leading zero, an optional
  fraction and an optional exponent.
\<close>

definition json_frac :: "string \<Rightarrow> (string \<times> string) option" where
  "json_frac cs =
     (case cs of
        [] \<Rightarrow> Some ([], [])
      | c # r \<Rightarrow>
          if c = CHR ''.''
          then (if takeWhile is_digit r = [] then None
                else Some (takeWhile is_digit r, dropWhile is_digit r))
          else Some ([], cs))"

definition json_exp :: "string \<Rightarrow> (int \<times> string) option" where
  "json_exp cs =
     (case cs of
        [] \<Rightarrow> Some (0, [])
      | c # r \<Rightarrow>
          if c = CHR ''e'' \<or> c = CHR ''E'' then
            (let sgn = (case r of s # _ \<Rightarrow> if s = CHR ''-'' then - 1 else 1 | [] \<Rightarrow> (1::int));
                 r' = (case r of s # t \<Rightarrow> if s = CHR ''-'' \<or> s = CHR ''+'' then t else r | [] \<Rightarrow> r)
             in if takeWhile is_digit r' = [] then None
                else Some (sgn * digits_val (takeWhile is_digit r'), dropWhile is_digit r'))
          else Some (0, cs))"

definition json_number :: "string \<Rightarrow> (jsval \<times> string) option" where
  "json_number cs =
     (let neg = (case cs of c # _ \<Rightarrow> c = CHR ''-'' | [] \<Rightarrow> False);
          r0 = (if neg then tl cs else cs);
          ip = takeWhile is_digit r0
      in if ip = [] \<or> (hd ip = CHR ''0'' \<and> 1 < length ip) then None
         else (case json_frac (dropWhile is_digit r0) of
                 None \<Rightarrow> None
               | Some (fp, r1) \<Rightarrow>
                   (case json_exp r1 of
                      None \<Rightarrow> None
                    | Some (ex, r2) \<Rightarrow>
                        Some (JNumber ((if neg then - 1 else 1) * digits_val (ip @ fp))
                                      (ex - int (length fp)), r2))))"

text \<open>
  A value, the elements of an array and the members of an object. The first argument
  bounds the depth of the recursion. \<open>JSON_parse\<close> starts with twice the length of the
  text and two: a value calls for its elements or members behind one character, and an
  element or member calls for the next one behind two at least.
\<close>

fun json_value :: "nat \<Rightarrow> string \<Rightarrow> (jsval \<times> string) option"
  and json_elements :: "nat \<Rightarrow> string \<Rightarrow> jsval list \<Rightarrow> (jsval \<times> string) option"
  and json_members :: "nat \<Rightarrow> string \<Rightarrow> (code_units \<times> jsval) list \<Rightarrow> (jsval \<times> string) option"
where
  "json_value 0 cs = None"
| "json_value (Suc n) cs =
     (case dropWhile json_ws cs of
        [] \<Rightarrow> None
      | c # r \<Rightarrow>
          if c = CHR ''{'' then
            (case dropWhile json_ws r of
               [] \<Rightarrow> None
             | d # r' \<Rightarrow> if d = CHR ''}'' then Some (JObject [], r') else json_members n (d # r') [])
          else if c = CHR ''['' then
            (case dropWhile json_ws r of
               [] \<Rightarrow> None
             | d # r' \<Rightarrow> if d = CHR '']'' then Some (JArray [], r') else json_elements n (d # r') [])
          else if c = double_quote then
            (case json_string r of None \<Rightarrow> None | Some (s, r') \<Rightarrow> Some (JString s, r'))
          else if startsWith (c # r) ''true'' then Some (JBool True, drop 4 (c # r))
          else if startsWith (c # r) ''false'' then Some (JBool False, drop 5 (c # r))
          else if startsWith (c # r) ''null'' then Some (JNull, drop 4 (c # r))
          else json_number (c # r))"
| "json_elements 0 cs acc = None"
| "json_elements (Suc n) cs acc =
     (case json_value n cs of
        None \<Rightarrow> None
      | Some (v, r) \<Rightarrow>
          (case dropWhile json_ws r of
             [] \<Rightarrow> None
           | d # r' \<Rightarrow>
               if d = CHR '','' then json_elements n r' (acc @ [v])
               else if d = CHR '']'' then Some (JArray (acc @ [v]), r')
               else None))"
| "json_members 0 cs acc = None"
| "json_members (Suc n) cs acc =
     (case dropWhile json_ws cs of
        [] \<Rightarrow> None
      | q # r \<Rightarrow>
          if q = double_quote then
            (case json_string r of
               None \<Rightarrow> None
             | Some (k, r1) \<Rightarrow>
                 (case dropWhile json_ws r1 of
                    [] \<Rightarrow> None
                  | c # r2 \<Rightarrow>
                      if c = CHR '':'' then
                        (case json_value n r2 of
                           None \<Rightarrow> None
                         | Some (v, r3) \<Rightarrow>
                             (case dropWhile json_ws r3 of
                                [] \<Rightarrow> None
                              | d # r4 \<Rightarrow>
                                  if d = CHR '','' then json_members n r4 (set_property k v acc)
                                  else if d = CHR ''}'' then Some (JObject (set_property k v acc), r4)
                                  else None))
                      else None))
          else None)"

definition JSON_parse :: "string \<Rightarrow> jsval option" where
  "JSON_parse text =
     (case json_value (2 * length text + 2) text of
        None \<Rightarrow> None
      | Some (v, r) \<Rightarrow> if dropWhile json_ws r = [] then Some v else None)"

section \<open>The network registry (networks.ts)\<close>

record Chain =
  chain_id :: int
  chain_name :: string

record FaucetConfig =
  symbol :: string
  amount :: string

text \<open>
  \<^verbatim>\<open>NetworkConfig\<close>. Its \<^verbatim>\<open>publicClient\<close> and \<^verbatim>\<open>walletClient\<close> are the viem clients
  that \<^verbatim>\<open>createNetworkConfig\<close> binds to \<^verbatim>\<open>chain\<close>; the model reaches them through the
  chain (see the chain client below).
\<close>

record NetworkConfig =
  chain :: Chain
  faucet :: FaucetConfig

definition createNetworkConfig :: "Chain \<Rightarrow> FaucetConfig \<Rightarrow> NetworkConfig" where
  "createNetworkConfig c f = \<lparr>chain = c, faucet = f\<rparr>"

text \<open>
  The chains. \<^verbatim>\<open>shardeumAtomium\<close> is defined in the source; the other four are
  constants of \<^verbatim>\<open>viem/chains\<close>, with the ids that library publishes.
\<close>

definition sepolia :: Chain where
  "sepolia = \<lparr>chain_id = 11155111, chain_name = ''Sepolia''\<rparr>"

definition abstractTestnet :: Chain where
  "abstractTestnet = \<lparr>chain_id = 11124, chain_name = ''Abstract Testnet''\<rparr>"

definition optimismSepolia :: Chain where
  "optimismSepolia = \<lparr>chain_id = 11155420, chain_name = ''OP Sepolia''\<rparr>"

definition polygon :: Chain where
  "polygon = \<lparr>chain_id = 137, chain_name = ''Polygon''\<rparr>"

definition shardeumAtomium :: Chain where
  "shardeumAtomium = \<lparr>chain_id = 8082, chain_name = ''Shardeum Atomium''\<rparr>"

text \<open>
  The table the \<^verbatim>\<open>networks\<close> object literal is built from: key, chain and faucet policy,
  in the order of the source.
\<close>

definition registrations :: "(string \<times> Chain \<times> FaucetConfig) list" where
  "registrations =
     [(''sepolia'', sepolia, \<lparr>symbol = ''ETH'', amount = ''0.01''\<rparr>),
      (''abstract'', abstractTestnet, \<lparr>symbol = ''ETH'', amount = ''0.01''\<rparr>),
      (''optimism-sepolia'', optimismSepolia, \<lparr>symbol = ''ETH'', amount = ''0.01''\<rparr>),
      (''polygon'', polygon, \<lparr>symbol = ''POL'', amount = ''0.1''\<rparr>),
      (''shardeum-atomium'', shardeumAtomium, \<lparr>symbol = ''SHM'', amount = ''100''\<rparr>)]"

text \<open>
  The own properties of the \<^verbatim>\<open>networks\<close> object, in insertion order (none of the keys
  is an array index, so that is the order \<^verbatim>\<open>Object.keys\<close> enumerates).
\<close>

definition networks :: "(string \<times> NetworkConfig) list" where
  "networks = map (\<lambda>(k, c, f). (k, createNetworkConfig c f)) registrations"

text \<open>
  \<^verbatim>\<open>networks\<close> is an ordinary object, so a property read falls back on
  \<^verbatim>\<open>Object.prototype\<close>. These are the properties every object inherits from it
  (ECMAScript, with Annex B); each holds a function or, for \<^verbatim>\<open>__proto__\<close>, the
  prototype object itself.
\<close>

definition Object_prototype_keys :: "string list" where
  "Object_prototype_keys =
     [''constructor'', ''hasOwnProperty'', ''isPrototypeOf'', ''propertyIsEnumerable'',
      ''toLocaleString'', ''toString'', ''valueOf'', ''__proto__'',
      ''__defineGetter__'', ''__defineSetter__'', ''__lookupGetter__'', ''__lookupSetter__'']"

text \<open>What the expression \<^verbatim>\<open>networks[name]\<close> evaluates to.\<close>

datatype network_lookup =
    Undefined
  | Config NetworkConfig
  | Inherited string

definition getAvailableNetworks :: "string list" where
  "getAvailableNetworks = map fst networks"

definition getNetwork :: "string \<Rightarrow> network_lookup" where
  "getNetwork nm =
     (case map_of networks nm of
        Some cfg \<Rightarrow> Config cfg
      | None \<Rightarrow> if nm \<in> set Object_prototype_keys then Inherited nm else Undefined)"

section \<open>The network selector\<close>

definition getNetworksFromInput :: "string \<Rightarrow> string list" where
  "getNetworksFromInput input =
     (let inputLower = toLowerCase input;
          availableNetworks = getAvailableNetworks
      in if str_includes inputLower ''both'' \<or> str_includes inputLower ''all''
         then availableNetworks
         else filter (\<lambda>network. str_includes inputLower (toLowerCase network)) availableNetworks)"

section \<open>Reading the model's response (the multi-network program)\<close>

text \<open>
  \<^verbatim>\<open>response.replace(/```json\n?|\n?```/g, '')\<close>: the text is scanned from the left; where
  a match starts it is dropped and the scan goes on behind it. At one place the first
  alternative is tried first, and \<^verbatim>\<open>\n?\<close> takes the line feed when there is one.
\<close>

definition fence :: string where
  "fence = [backtick, backtick, backtick]"

function strip_fences :: "string \<Rightarrow> string" where
  "strip_fences [] = []"
| "strip_fences (c # s) =
     (if startsWith (c # s) (fence @ ''json'' @ [LF]) then strip_fences (drop 8 (c # s))
      else if startsWith (c # s) (fence @ ''json'') then strip_fences (drop 7 (c # s))
      else if startsWith (c # s) (LF # fence) then strip_fences (drop 4 (c # s))
      else if startsWith (c # s) fence then strip_fences (drop 3 (c # s))
      else c # strip_fences s)"
  by pat_completeness auto
termination
  by (relation "measure length") auto

definition clean_response :: "string \<Rightarrow> string" where
  "clean_response response = trim (strip_fences response)"

text \<open>
  A payload in a fenced code block: the opening fence with its tag, a line feed, the
  payload, a line feed and the closing fence.
\<close>

definition fenced :: "string \<Rightarrow> string" where
  "fenced payload = fence @ ''json'' @ [LF] @ payload @ [LF] @ fence"

text \<open>
  Reading a property of the parsed value, for the names the programs read (\<^verbatim>\<open>error\<close>,
  \<^verbatim>\<open>to\<close>, \<^verbatim>\<open>networks\<close>, \<^verbatim>\<open>explanation\<close>, \<^verbatim>\<open>amount\<close>). None of them is a property of a
  prototype, so an object gives its own property or \<^verbatim>\<open>undefined\<close> (\<open>None\<close>), and a
  string, number, boolean or array gives \<^verbatim>\<open>undefined\<close>. Reading a property of
  \<^verbatim>\<open>null\<close> throws; the callers treat that case first.
\<close>

definition get_property :: "jsval \<Rightarrow> string \<Rightarrow> jsval option" where
  "get_property v k = (case v of JObject kvs \<Rightarrow> map_of kvs (units k) | _ \<Rightarrow> None)"

text \<open>
  Truthiness. A number is falsy when it is zero as a double: the decimal is zero, or it
  is so small that it rounds to zero (at most \<open>2 ^ - 1075\<close>, half of the least positive
  double).
\<close>

definition number_is_zero :: "int \<Rightarrow> int \<Rightarrow> bool" where
  "number_is_zero m e = (m = 0 \<or> (e < 0 \<and> \<bar>m\<bar> * 2 ^ 1075 \<le> 10 ^ nat (- e)))"

fun truthy :: "jsval option \<Rightarrow> bool" where
  "truthy None = False"
| "truthy (Some JNull) = False"
| "truthy (Some (JBool b)) = b"
| "truthy (Some (JNumber m e)) = (\<not> number_is_zero m e)"
| "truthy (Some (JString s)) = (s \<noteq> [])"
| "truthy (Some (JArray vs)) = True"
| "truthy (Some (JObject kvs)) = True"

text \<open>
  Converting a parsed value to a string (for \<^verbatim>\<open>'...' + parsed.error\<close> and for
  \<^verbatim>\<open>regex.test(parsed.to)\<close>) throws a \<^verbatim>\<open>TypeError\<close> exactly when it meets an object with
  an own property \<^verbatim>\<open>toString\<close>: that property hides the inherited method and is not a
  function. An array converts its elements, joined by commas.
\<close>

fun to_string_throws :: "jsval \<Rightarrow> bool" where
  "to_string_throws (JObject kvs) = (map_of kvs (units ''toString'') \<noteq> None)"
| "to_string_throws (JArray vs) = list_ex to_string_throws vs"
| "to_string_throws v = False"

text \<open>\<^verbatim>\<open>/^0x[a-fA-F0-9]{40}$/i\<close> on a string; with the flag \<^verbatim>\<open>i\<close> the \<^verbatim>\<open>x\<close> matches \<^verbatim>\<open>X\<close> too.\<close>

definition is_address :: "code_units \<Rightarrow> bool" where
  "is_address s =
     (case s of
        c0 # c1 # ds \<Rightarrow>
          c0 = of_char CHR ''0'' \<and> (c1 = of_char CHR ''x'' \<or> c1 = of_char CHR ''X'')
          \<and> length ds = 40 \<and> list_all is_hex_unit ds
      | _ \<Rightarrow> False)"

text \<open>
  \<^verbatim>\<open>regex.test(parsed.to)\<close> on a value whose conversion does not throw. The test
  converts its argument to a string first. A string is itself. An array of one element
  has the string of that element (the empty string for \<^verbatim>\<open>null\<close>), an empty array the
  empty string, a longer array a string with a comma. A number is written with digits,
  a sign, a point and an exponent, and \<^verbatim>\<open>true\<close>, \<^verbatim>\<open>null\<close> and \<^verbatim>\<open>[object Object]\<close> are
  what they are: none of these is an address.
\<close>

fun address_test :: "jsval \<Rightarrow> bool" where
  "address_test (JString s) = is_address s"
| "address_test (JArray [v]) = address_test v"
| "address_test v = False"

text \<open>Both for a property that may be absent: \<^verbatim>\<open>undefined\<close> converts to its name.\<close>

definition conversion_throws :: "jsval option \<Rightarrow> bool" where
  "conversion_throws p = (case p of None \<Rightarrow> False | Some v \<Rightarrow> to_string_throws v)"

definition regex_test_address :: "jsval option \<Rightarrow> bool" where
  "regex_test_address p = (case p of None \<Rightarrow> False | Some v \<Rightarrow> address_test v)"

definition understanding_message :: string where
  "understanding_message = ''AI could not understand the request''"

definition parse_failure_message :: string where
  "parse_failure_message = ''Failed to parse AI response. Please try again with a simpler request.''"

definition UnderstandingFailure :: exn where
  "UnderstandingFailure = Error understanding_message"

definition MalformedResponse :: exn where
  "MalformedResponse = Error parse_failure_message"

text \<open>
  The body of the \<^verbatim>\<open>try\<close> block of \<^verbatim>\<open>parseAIResponse\<close> behind \<^verbatim>\<open>JSON.parse\<close>: the checks
  on the parsed value, in the order of the source, with what each throws. Reading
  \<^verbatim>\<open>parsed.error\<close> of \<^verbatim>\<open>null\<close> throws; a truthy \<^verbatim>\<open>error\<close> is logged, which converts it
  to a string, and then the marker error is thrown.
\<close>

definition validate_parsed :: "jsval \<Rightarrow> exn + jsval" where
  "validate_parsed parsed =
     (if parsed = JNull then
        Inl (TypeError (''Cannot read properties of null (reading '' @ [single_quote] @ ''error''
                        @ [single_quote] @ '')''))
      else if truthy (get_property parsed ''error'') then
        (if conversion_throws (get_property parsed ''error'')
         then Inl (TypeError ''Cannot convert object to primitive value'')
         else Inl (Error understanding_message))
      else if \<not> truthy (get_property parsed ''to'') \<or> \<not> truthy (get_property parsed ''networks'')
              \<or> \<not> truthy (get_property parsed ''explanation'')
      then Inl (Error ''Missing required fields in response'')
      else if conversion_throws (get_property parsed ''to'')
      then Inl (TypeError ''Cannot convert object to primitive value'')
      else if \<not> regex_test_address (get_property parsed ''to'')
      then Inl (Error ''Invalid Ethereum address format'')
      else Inr parsed)"

definition parse_try :: "string \<Rightarrow> exn + jsval" where
  "parse_try response =
     (case JSON_parse (clean_response response) of
        None \<Rightarrow> Inl (SyntaxError ''Unexpected token in JSON'')
      | Some parsed \<Rightarrow> validate_parsed parsed)"

text \<open>
  The \<^verbatim>\<open>catch\<close> block: it throws the marker error again and turns every other error
  into the parse failure.
\<close>

definition parse_catch :: "exn + jsval \<Rightarrow> exn + jsval" where
  "parse_catch r =
     (case r of
        Inr parsed \<Rightarrow> Inr parsed
      | Inl error \<Rightarrow>
          if message error = understanding_message then Inl error
          else Inl (Error parse_failure_message))"

text \<open>\<^verbatim>\<open>parseAIResponse\<close> of the multi-network program.\<close>

definition parseAIResponse :: "string \<Rightarrow> exn + jsval" where
  "parseAIResponse response = parse_catch (parse_try response)"

section \<open>Reading the model's response (the single-network program, index.ts)\<close>

text \<open>
  The three fields are JavaScript strings: properties of the parsed value, or parts of
  the response that a pattern has matched.
\<close>

record TransactionDetails =
  td_to :: code_units
  td_amount :: code_units
  td_explanation :: code_units

text \<open>
  \<^verbatim>\<open>amount.replace(/\s*ETH\s*$/i, '')\<close>: the match has to end at the end of the string, so
  it is there exactly when the string without its trailing white space ends in
  \<^verbatim>\<open>ETH\<close> (in either case of each letter); the leftmost match takes all the white
  space before it.
\<close>

definition strip_eth :: "code_units \<Rightarrow> code_units" where
  "strip_eth a =
     (let r = dropWhile is_space_unit (rev a)
      in if (case r of
               h # t # e # _ \<Rightarrow>
                 same_letter h (CHR ''H'') \<and> same_letter t (CHR ''T'') \<and> same_letter e (CHR ''E'')
             | _ \<Rightarrow> False)
         then rev (dropWhile is_space_unit (drop 3 r))
         else a)"

text \<open>A property when \<^verbatim>\<open>typeof\<close> it is \<^verbatim>\<open>'string'\<close>.\<close>

definition string_property :: "jsval \<Rightarrow> string \<Rightarrow> code_units option" where
  "string_property parsed k = (case get_property parsed k of Some (JString s) \<Rightarrow> Some s | _ \<Rightarrow> None)"

text \<open>The body of the \<^verbatim>\<open>try\<close> block: the structured decoding.\<close>

definition decode_json :: "string \<Rightarrow> exn + TransactionDetails" where
  "decode_json response =
     (case JSON_parse response of
        None \<Rightarrow> Inl (SyntaxError ''Unexpected token in JSON'')
      | Some parsed \<Rightarrow>
          if parsed = JNull then
            Inl (TypeError (''Cannot read properties of null (reading '' @ [single_quote] @ ''to''
                            @ [single_quote] @ '')''))
          else
            (case (string_property parsed ''to'', string_property parsed ''amount'',
                   string_property parsed ''explanation'') of
               (Some t, Some a, Some e) \<Rightarrow>
                 Inr \<lparr>td_to = t, td_amount = strip_eth a, td_explanation = e\<rparr>
             | _ \<Rightarrow> Inl (Error ''Invalid response structure'')))"

text \<open>
  \<^verbatim>\<open>response.match(/key\s*([class]+)/)\<close>, for a key and a class of characters that holds
  no white space: the first group of the leftmost match. Behind the key all white space
  is skipped, and the group is the longest run of the class that starts there; as no
  white space is in the class, giving white space back never helps.
\<close>

fun match_field :: "string \<Rightarrow> (char \<Rightarrow> bool) \<Rightarrow> string \<Rightarrow> string option" where
  "match_field key cls [] = None"
| "match_field key cls (c # s) =
     (if startsWith (c # s) key
         \<and> takeWhile cls (dropWhile is_space (drop (length key) (c # s))) \<noteq> []
      then Some (takeWhile cls (dropWhile is_space (drop (length key) (c # s))))
      else match_field key cls s)"

definition match_to :: "string \<Rightarrow> string option" where
  "match_to response = match_field ''to:'' (\<lambda>c. is_hex_digit c \<or> c = CHR ''x'') response"

definition match_amount :: "string \<Rightarrow> string option" where
  "match_amount response = match_field ''amount:'' (\<lambda>c. is_digit c \<or> c = CHR ''.'') response"

text \<open>
  \<^verbatim>\<open>response.match(/explanation:\s*(.+)/)\<close>. Behind the key the white space is skipped
  and the group runs to the end of the line. When only white space follows the key,
  the matcher gives white space back until \<^verbatim>\<open>.\<close> can take a character: the group is
  then the last character of that white space that is no line terminator, if there is
  one.
\<close>

definition explanation_group :: "string \<Rightarrow> string option" where
  "explanation_group r =
     (case dropWhile is_space r of
        d # t \<Rightarrow> Some (takeWhile (\<lambda>c. \<not> is_line_terminator c) (d # t))
      | [] \<Rightarrow>
          (case dropWhile is_line_terminator (rev r) of
             [] \<Rightarrow> None
           | c # _ \<Rightarrow> Some [c]))"

fun match_explanation :: "string \<Rightarrow> string option" where
  "match_explanation [] = None"
| "match_explanation (c # s) =
     (if startsWith (c # s) ''explanation:'' \<and> explanation_group (drop 12 (c # s)) \<noteq> None
      then explanation_group (drop 12 (c # s))
      else match_explanation s)"

definition regex_fallback :: "string \<Rightarrow> TransactionDetails option" where
  "regex_fallback response =
     (case (match_to response, match_amount response, match_explanation response) of
        (Some t, Some a, Some e) \<Rightarrow>
          Some \<lparr>td_to = units t, td_amount = units a, td_explanation = units (trim e)\<rparr>
      | _ \<Rightarrow> None)"

text \<open>\<^verbatim>\<open>parseAIResponse\<close> of index.ts: on any error of the decoding, the regular expressions.\<close>

definition single_parseAIResponse :: "string \<Rightarrow> exn + TransactionDetails" where
  "single_parseAIResponse response =
     (case decode_json response of
        Inr details \<Rightarrow> Inr details
      | Inl error \<Rightarrow>
          (case regex_fallback response of
             Some details \<Rightarrow> Inr details
           | None \<Rightarrow> Inl (Error ''Failed to parse AI response'')))"

text \<open>
  The specification's words for the three patterns: somewhere in the text stands the key,
  then white space (possibly none), then a character of the class the pattern asks for.
\<close>

definition field_occurs :: "string \<Rightarrow> (char \<Rightarrow> bool) \<Rightarrow> string \<Rightarrow> bool" where
  "field_occurs key cls s =
     (\<exists>pre ws c post. s = pre @ key @ ws @ c # post \<and> list_all is_space ws \<and> cls c)"

section \<open>The chain client\<close>

text \<open>
  The viem library and the chains behind it are outside the program. They are a
  parameter of the model: a record of operations over a state \<open>'w\<close> of the outside world.
  \<^verbatim>\<open>parseEther\<close> turns a decimal string into wei or throws; \<^verbatim>\<open>formatEther\<close> writes wei
  in ether. The three calls to a chain take the chain the client was made for; each
  returns a result or throws, and leaves the world in a new state. \<open>elapse\<close> is the
  world after a wait of so many milliseconds.
\<close>

datatype receipt_status = success | reverted

record 'w viem =
  parseEther :: "string \<Rightarrow> exn + int"
  formatEther :: "int \<Rightarrow> string"
  getBalance :: "Chain \<Rightarrow> 'w \<Rightarrow> (exn + int) \<times> 'w"
  sendTransaction :: "Chain \<Rightarrow> string \<Rightarrow> int \<Rightarrow> 'w \<Rightarrow> (exn + string) \<times> 'w"
  getTransactionReceipt :: "Chain \<Rightarrow> string \<Rightarrow> 'w \<Rightarrow> (exn + receipt_status) \<times> 'w"
  elapse :: "int \<Rightarrow> 'w \<Rightarrow> 'w"

datatype tx_status = Success | Failed | Pending | Unknown

section \<open>Dispatch and status (the multi-network program)\<close>

definition drained_message :: "string \<Rightarrow> string \<Rightarrow> string \<Rightarrow> string" where
  "drained_message networkName balance_text unit_name =
     ''Faucet is currently drained for '' @ networkName @ ''. We will refill it soon. ''
     @ ''Current balance: '' @ balance_text @ '' '' @ unit_name"

definition not_configured_message :: "string \<Rightarrow> string" where
  "not_configured_message networkName = ''Network '' @ networkName @ '' not configured''"

text \<open>
  \<^verbatim>\<open>makeTransaction\<close>. For a name that \<^verbatim>\<open>networks\<close> only inherits, \<^verbatim>\<open>network\<close> is truthy
  and has no \<^verbatim>\<open>walletClient\<close>, so the call of it throws before any request is made.
\<close>

definition makeTransaction ::
  "'w viem \<Rightarrow> string \<Rightarrow> string \<Rightarrow> string \<Rightarrow> 'w \<Rightarrow> (exn + string) \<times> 'w" where
  "makeTransaction v to amt networkName w =
     (case getNetwork networkName of
        Undefined \<Rightarrow> (Inl (Error (not_configured_message networkName)), w)
      | Inherited p \<Rightarrow> (Inl (TypeError ''network.walletClient is not a function''), w)
      | Config network \<Rightarrow>
          (case getBalance v (chain network) w of
             (Inl e, w1) \<Rightarrow> (Inl e, w1)
           | (Inr balance, w1) \<Rightarrow>
               (case parseEther v amt of
                  Inl e \<Rightarrow> (Inl e, w1)
                | Inr val \<Rightarrow>
                    if balance < val
                    then (Inl (Error (drained_message networkName (formatEther v balance)
                                        (symbol (faucet network)))), w1)
                    else sendTransaction v (chain network) to val w1)))"

text \<open>
  \<^verbatim>\<open>getTransactionStatus\<close>. The receipt is read inside the \<^verbatim>\<open>try\<close> block, so for an
  inherited name the \<^verbatim>\<open>TypeError\<close> of reading \<^verbatim>\<open>network.publicClient\<close> ends as
  \<open>Unknown\<close>.
\<close>

definition status_of_receipt :: "exn + receipt_status \<Rightarrow> tx_status" where
  "status_of_receipt r =
     (case r of
        Inr st \<Rightarrow> if st = success then Success else Failed
      | Inl e \<Rightarrow> if str_includes (message e) ''could not be found'' then Pending else Unknown)"

definition getTransactionStatus ::
  "'w viem \<Rightarrow> string \<Rightarrow> string \<Rightarrow> 'w \<Rightarrow> (exn + tx_status) \<times> 'w" where
  "getTransactionStatus v hash networkName w =
     (case getNetwork networkName of
        Undefined \<Rightarrow> (Inl (Error (not_configured_message networkName)), w)
      | Inherited p \<Rightarrow> (Inr Unknown, w)
      | Config network \<Rightarrow>
          (case getTransactionReceipt v (chain network) hash w of
             (r, w1) \<Rightarrow> (Inr (status_of_receipt r), w1)))"

text \<open>
  A request as \<^verbatim>\<open>makeMultipleTransactions\<close> is typed to take it: an object with the three
  strings.
\<close>

record NetworkRequest =
  nr_name :: string
  nr_amount :: string
  nr_symbol :: string

datatype outcome = Sent string tx_status | Failure string

record DispatchResult =
  network :: string
  result :: outcome

text \<open>One turn of the loop of \<^verbatim>\<open>makeMultipleTransactions\<close>: the \<^verbatim>\<open>try\<close> and its \<^verbatim>\<open>catch\<close>.\<close>

definition dispatch :: "'w viem \<Rightarrow> string \<Rightarrow> NetworkRequest \<Rightarrow> 'w \<Rightarrow> DispatchResult \<times> 'w" where
  "dispatch v to req w =
     (case makeTransaction v to (nr_amount req) (nr_name req) w of
        (Inl e, w1) \<Rightarrow> (\<lparr>network = nr_name req, result = Failure (message e)\<rparr>, w1)
      | (Inr hash, w1) \<Rightarrow>
          (case getTransactionStatus v hash (nr_name req) w1 of
             (Inl e, w2) \<Rightarrow> (\<lparr>network = nr_name req, result = Failure (message e)\<rparr>, w2)
           | (Inr st, w2) \<Rightarrow> (\<lparr>network = nr_name req, result = Sent hash st\<rparr>, w2)))"

fun makeMultipleTransactions ::
  "'w viem \<Rightarrow> string \<Rightarrow> NetworkRequest list \<Rightarrow> 'w \<Rightarrow> DispatchResult list \<times> 'w" where
  "makeMultipleTransactions v to [] w = ([], w)"
| "makeMultipleTransactions v to (req # reqs) w =
     (case dispatch v to req w of
        (r, w1) \<Rightarrow>
          (case makeMultipleTransactions v to reqs w1 of
             (rs, w2) \<Rightarrow> (r # rs, w2)))"

text \<open>A list with one more entry, put in at a position.\<close>

definition put_in :: "nat \<Rightarrow> 'a \<Rightarrow> 'a list \<Rightarrow> 'a list" where
  "put_in n x xs = take n xs @ x # drop n xs"

section \<open>Dispatch, status and polling (the single-network program, index.ts)\<close>

definition insufficient_message :: "string \<Rightarrow> string \<Rightarrow> string" where
  "insufficient_message balance_text amt =
     ''Insufficient funds. Balance: '' @ balance_text @ '' ETH, Trying to send: '' @ amt @ '' ETH''"

definition single_makeTransaction ::
  "'w viem \<Rightarrow> string \<Rightarrow> string \<Rightarrow> 'w \<Rightarrow> (exn + string) \<times> 'w" where
  "single_makeTransaction v to amt w =
     (case getBalance v sepolia w of
        (Inl e, w1) \<Rightarrow> (Inl e, w1)
      | (Inr balance, w1) \<Rightarrow>
          (case parseEther v amt of
             Inl e \<Rightarrow> (Inl e, w1)
           | Inr val \<Rightarrow>
               if balance < val
               then (Inl (Error (insufficient_message (formatEther v balance) amt)), w1)
               else sendTransaction v sepolia to val w1))"

definition single_getTransactionStatus :: "'w viem \<Rightarrow> string \<Rightarrow> 'w \<Rightarrow> tx_status \<times> 'w" where
  "single_getTransactionStatus v hash w =
     (case getTransactionReceipt v sepolia hash w of (r, w1) \<Rightarrow> (status_of_receipt r, w1))"

text \<open>
  The poll of \<^verbatim>\<open>main\<close>: \<^verbatim>\<open>setInterval(callback, 5000)\<close>. The timer runs the callback
  once every period; the callback reads the status, logs it, and on a status other
  than \<open>Pending\<close> clears the timer and logs the completion. The model runs the
  callbacks one after the other, each when its period has passed, and keeps the log:
  the time of each check, counted in milliseconds from the start of the timer, with
  the status it saw. It returns when the timer is cleared; while every check sees
  \<open>Pending\<close> the timer goes on, and the model has no value (\<open>None\<close>).
\<close>

definition poll_interval :: int where
  "poll_interval = 5000"

partial_function (option) poll ::
  "'w viem \<Rightarrow> string \<Rightarrow> int \<Rightarrow> (int \<times> tx_status) list \<Rightarrow> 'w \<Rightarrow> ((int \<times> tx_status) list \<times> 'w) option" where
  "poll v hash now log w =
     (case single_getTransactionStatus v hash (elapse v poll_interval w) of
        (st, w1) \<Rightarrow>
          if st \<noteq> Pending then Some (log @ [(now + poll_interval, st)], w1)
          else poll v hash (now + poll_interval) (log @ [(now + poll_interval, st)]) w1)"

text \<open>The world and the status at the n-th check of the timer.\<close>

fun tick :: "'w viem \<Rightarrow> string \<Rightarrow> 'w \<Rightarrow> nat \<Rightarrow> tx_status \<times> 'w" where
  "tick v hash w 0 = single_getTransactionStatus v hash (elapse v poll_interval w)"
| "tick v hash w (Suc n) =
     single_getTransactionStatus v hash (elapse v poll_interval (snd (tick v hash w n)))"

text \<open>
  The n-th check of the timer is the first to see a status other than \<open>Pending\<close>.
\<close>

definition first_final :: "'w viem \<Rightarrow> string \<Rightarrow> 'w \<Rightarrow> nat \<Rightarrow> bool" where
  "first_final v hash w n =
     (fst (tick v hash w n) \<noteq> Pending \<and> (\<forall>m < n. fst (tick v hash w m) = Pending))"

section \<open>A reference client\<close>

text \<open>
  One instance of the chain client, to run the model on: viem's \<^verbatim>\<open>formatEther\<close>, its
  \<^verbatim>\<open>parseEther\<close> on plain decimals, and a simulated chain.
\<close>

function digits_of :: "int \<Rightarrow> string" where
  "digits_of n =
     (if n < 10 then [char_of (48 + n)] else digits_of (n div 10) @ [char_of (48 + n mod 10)])"
  by pat_completeness auto
termination
  by (relation "measure nat") auto

text \<open>
  \<^verbatim>\<open>formatEther(wei)\<close>, which is \<^verbatim>\<open>formatUnits(wei, 18)\<close>: the digits of the absolute value,
  padded with zeros to 18 places, split 18 places from the right; the fraction loses its
  trailing zeros, and the point goes with it when nothing is left.
\<close>

definition viem_formatEther :: "int \<Rightarrow> string" where
  "viem_formatEther wei =
     (let display = digits_of \<bar>wei\<bar>;
          padded = replicate (18 - length display) (CHR ''0'') @ display;
          integer = take (length padded - 18) padded;
          fraction = rev (dropWhile (\<lambda>c. c = CHR ''0'') (rev (drop (length padded - 18) padded)))
      in (if wei < 0 then ''-'' else [])
         @ (if integer = [] then ''0'' else integer)
         @ (if fraction = [] then [] else ''.'' @ fraction))"

text \<open>
  \<^verbatim>\<open>parseEther\<close> on the plain decimals: digits, at least one, and then nothing or a point
  and one to 18 digits. On these viem needs no rounding and the value is the digits
  with the fraction filled up to 18 places. This instance refuses every other string,
  with an error in words of its own; viem itself takes more strings than these (a
  sign, a fraction of more than 18 digits, which it rounds).
\<close>

definition plain_parseEther :: "string \<Rightarrow> exn + int" where
  "plain_parseEther a =
     (let ip = takeWhile is_digit a;
          r = dropWhile is_digit a;
          fp = (case r of [] \<Rightarrow> [] | c # t \<Rightarrow> t)
      in if ip \<noteq> []
            \<and> (r = [] \<or> (hd r = CHR ''.'' \<and> fp \<noteq> [] \<and> list_all is_digit fp \<and> length fp \<le> 18))
         then Inr (digits_val (ip @ fp @ replicate (18 - length fp) (CHR ''0'')))
         else Inl (Error (''Number '' @ [backtick] @ a @ [backtick]
                          @ '' is not a plain decimal number.'')))"

text \<open>
  The simulated chain: one balance of the signer, a clock in milliseconds, the
  transactions sent with the time each is mined (12 seconds after it was sent), and
  the number of receipts asked for. A transaction is sent to an address written in
  lower case, \<^verbatim>\<open>0x\<close> and 40 digits or letters \<^verbatim>\<open>a\<close> to \<^verbatim>\<open>f\<close>, which viem takes without
  a checksum; this instance refuses every other recipient before anything is sent
  (viem takes an address in mixed case as well when its checksum is right).
\<close>

record sim_world =
  sim_balance :: int
  sim_clock :: int
  sim_mined_at :: "(string \<times> int) list"
  sim_receipt_reads :: int

definition receipt_not_found :: "string \<Rightarrow> exn" where
  "receipt_not_found hash =
     Error (''Transaction receipt with hash '' @ [double_quote] @ hash @ [double_quote]
            @ '' could not be found. The Transaction may not be processed on a block yet.'')"

definition is_lower_address :: "string \<Rightarrow> bool" where
  "is_lower_address s =
     (case s of
        c0 # c1 # ds \<Rightarrow>
          c0 = CHR ''0'' \<and> c1 = CHR ''x'' \<and> length ds = 40
          \<and> list_all (\<lambda>c. c \<in> set ''0123456789abcdef'') ds
      | _ \<Rightarrow> False)"

definition sim_send :: "Chain \<Rightarrow> string \<Rightarrow> int \<Rightarrow> sim_world \<Rightarrow> (exn + string) \<times> sim_world" where
  "sim_send c to val w =
     (if \<not> is_lower_address to
      then (Inl (Error (''Address '' @ [double_quote] @ to @ [double_quote] @ '' is invalid.'')), w)
      else
        (let hash = ''0xtx'' @ digits_of (int (length (sim_mined_at w)))
         in (Inr hash, w\<lparr>sim_balance := sim_balance w - val,
                          sim_mined_at := sim_mined_at w @ [(hash, sim_clock w + 12000)]\<rparr>)))"

definition sim_receipt :: "Chain \<Rightarrow> string \<Rightarrow> sim_world \<Rightarrow> (exn + receipt_status) \<times> sim_world" where
  "sim_receipt c hash w =
     ((case map_of (sim_mined_at w) hash of
         None \<Rightarrow> Inl (receipt_not_found hash)
       | Some t \<Rightarrow> if t \<le> sim_clock w then Inr success else Inl (receipt_not_found hash)),
      w\<lparr>sim_receipt_reads := sim_receipt_reads w + 1\<rparr>)"

definition sim_client :: "sim_world viem" where
  "sim_client =
     \<lparr>parseEther = plain_parseEther,
      formatEther = viem_formatEther,
      getBalance = (\<lambda>c w. (Inr (sim_balance w), w)),
      sendTransaction = sim_send,
      getTransactionReceipt = sim_receipt,
      elapse = (\<lambda>ms w. w\<lparr>sim_clock := sim_clock w + ms\<rparr>)\<rparr>"

definition sim_start :: "int \<Rightarrow> sim_world" where
  "sim_start b = \<lparr>sim_balance = b, sim_clock = 0, sim_mined_at = [], sim_receipt_reads = 0\<rparr>"

section \<open>Sample inputs\<close>

text \<open>A recipient.\<close>

definition recipient :: string where
  "recipient = ''0x2d6da915f00dca50b06a60fca010949382f4e0e8''"

text \<open>Requests for a batch: two registered networks and a name that is not registered.\<close>

definition batch_sepolia :: NetworkRequest where
  "batch_sepolia = \<lparr>nr_name = ''sepolia'', nr_amount = ''0.01'', nr_symbol = ''ETH''\<rparr>"

definition batch_foo :: NetworkRequest where
  "batch_foo = \<lparr>nr_name = ''foo'', nr_amount = ''0.01'', nr_symbol = ''ETH''\<rparr>"

definition batch_polygon :: NetworkRequest where
  "batch_polygon = \<lparr>nr_name = ''polygon'', nr_amount = ''0.1'', nr_symbol = ''POL''\<rparr>"

text \<open>Responses of the model.\<close>

definition response_empty_error :: string where
  \<open>response_empty_error = ''{"error": ""}''\<close>

definition response_empty_error_intent :: string where
  \<open>response_empty_error_intent =
     ''{"error": "", "to": "0x2d6DA915F00dcA50b06a60fca010949382f4e0e8", "networks": [{"name": "sepolia", "amount": "0.01", "symbol": "ETH"}], "explanation": "Sending 0.01 ETH"}''\<close>

definition response_error :: string where
  \<open>response_error = ''{"error": "I am not sure what you are asking."}''\<close>

definition response_error_escaped :: string where
  \<open>response_error_escaped = ''{"error": "'' @ [backslash] @ ''u2713 no"}''\<close>

definition response_error_object :: string where
  \<open>response_error_object = ''{"error": {"toString": 1}}''\<close>

definition response_array_recipient :: string where
  \<open>response_array_recipient =
     ''{"to": ["0x2d6DA915F00dcA50b06a60fca010949382f4e0e8"], "networks": [{"name": "sepolia", "amount": "0.01", "symbol": "ETH"}], "explanation": "Sending 0.01 ETH"}''\<close>

definition response_bad_address :: string where
  \<open>response_bad_address =
     ''{"to": "0xZZZZZZZZZZZZZZZZZZZZZZZZZZZZZZZZZZZZZZZZ", "networks": [{"name": "sepolia", "amount": "0.01", "symbol": "ETH"}], "explanation": "Sending 0.01 ETH"}''\<close>

definition response_empty_to :: string where
  \<open>response_empty_to =
     ''{"to": "", "networks": [{"name": "sepolia", "amount": "0.01", "symbol": "ETH"}], "explanation": "Sending 0.01 ETH"}''\<close>

definition sepolia_request :: jsval where
  "sepolia_request =
     JObject [(units ''name'', JString (units ''sepolia'')),
              (units ''amount'', JString (units ''0.01'')),
              (units ''symbol'', JString (units ''ETH''))]"

text \<open>A well-formed response.\<close>

definition response_ok :: string where
  \<open>response_ok =
     ''{"to": "0x2d6DA915F00dcA50b06a60fca010949382f4e0e8", "networks": [{"name": "sepolia", "amount": "0.01", "symbol": "ETH"}], "explanation": "Sending 0.01 ETH"}''\<close>

text \<open>A response in lines, not JSON.\<close>

definition response_lines :: string where
  "response_lines =
     ''to: 0x2d6DA915F00dcA50b06a60fca010949382f4e0e8'' @ [LF] @ ''amount: 0.01'' @ [LF]
     @ ''explanation: Sending 0.01 ETH''"

text \<open>The simulated world after a transfer of 0.01 ETH on Sepolia at time 0.\<close>

definition sim_sent_world :: sim_world where
  "sim_sent_world =
     snd (sendTransaction sim_client sepolia recipient 10000000000000000
            (sim_start 1000000000000000000))"

section \<open>Properties of strings\<close>

lemma startsWith_prefix: "startsWith s t = prefix t s"
  by (induction s t rule: startsWith.induct) auto

lemma str_includes_sublist: "str_includes s t = sublist t s"
  by (induction s) (auto simp: startsWith_prefix sublist_Cons_right)

lemma str_includes_occurs: "str_includes s t = occurs_in t s"
  by (simp add: str_includes_sublist sublist_def occurs_in_def)

section \<open>The registry\<close>

lemma getAvailableNetworks_eq:
  "getAvailableNetworks =
     [''sepolia'', ''abstract'', ''optimism-sepolia'', ''polygon'', ''shardeum-atomium'']"
  by code_simp

lemma registered_all:
  "list_all (\<lambda>(k, c, f). getNetwork k = Config \<lparr>chain = c, faucet = f\<rparr> \<and> symbol f \<noteq> [])
     registrations"
  by code_simp

text \<open>
  A registered name is looked up to its configuration: the chain it was registered
  with (so the chain id is that chain's) and a faucet symbol that is not empty.
\<close>

lemma getNetwork_registered:
  assumes "(k, c, f) \<in> set registrations"
  shows "getNetwork k = Config \<lparr>chain = c, faucet = f\<rparr> \<and> symbol f \<noteq> []"
  using assms registered_all unfolding list_all_iff by blast

text \<open>
  A name that is neither registered nor a property of \<^verbatim>\<open>Object.prototype\<close> is looked up to
  \<^verbatim>\<open>undefined\<close>.
\<close>

lemma getNetwork_unregistered:
  assumes "k \<notin> set getAvailableNetworks" and "k \<notin> set Object_prototype_keys"
  shows "getNetwork k = Undefined"
proof -
  from assms(1) have "map_of networks k = None"
    by (simp add: getAvailableNetworks_def map_of_eq_None_iff)
  with assms(2) show ?thesis by (simp add: getNetwork_def)
qed

lemma getNetwork_Config_iff:
  "(\<exists>cfg. getNetwork k = Config cfg) = (k \<in> set getAvailableNetworks)"
proof -
  have "(map_of networks k = None) = (k \<notin> set getAvailableNetworks)"
    by (simp add: getAvailableNetworks_def map_of_eq_None_iff)
  then show ?thesis
    by (cases "map_of networks k") (auto simp: getNetwork_def)
qed

text \<open>
  C7. The claim is that a lookup of a name that is not registered gives
  \<^verbatim>\<open>undefined\<close>. The name \<^verbatim>\<open>constructor\<close> is not registered, and \<^verbatim>\<open>networks[name]\<close> gives the
  function that every object inherits under that name.
\<close>

theorem getNetwork_inherited:
  "getNetwork ''constructor'' = Inherited ''constructor''
   \<and> ''constructor'' \<notin> set getAvailableNetworks"
  by code_simp

section \<open>The selector\<close>

text \<open>
  C2. For every input, \<open>getNetworksFromInput\<close> returns all registered names, in the order
  of the registry, when the lower-cased input contains \<^verbatim>\<open>all\<close> or \<^verbatim>\<open>both\<close>, whatever
  else it contains; otherwise it returns the registered names whose lower-cased form
  occurs in the lower-cased input, and only those, in the order of the registry. The
  order of the registry is the order of the registration table.
\<close>

theorem getNetworksFromInput_selects:
  "(occurs_in ''all'' (toLowerCase input) \<or> occurs_in ''both'' (toLowerCase input)
      \<longrightarrow> getNetworksFromInput input = getAvailableNetworks)
   \<and> (\<not> occurs_in ''all'' (toLowerCase input) \<and> \<not> occurs_in ''both'' (toLowerCase input)
      \<longrightarrow> getNetworksFromInput input =
          filter (\<lambda>n. occurs_in (toLowerCase n) (toLowerCase input)) getAvailableNetworks)
   \<and> getAvailableNetworks = map fst registrations"
  by (auto simp: getNetworksFromInput_def Let_def str_includes_occurs getAvailableNetworks_def
      networks_def split_def comp_def)

theorem getNetworksFromInput_selects_witness:
  "getNetworksFromInput ''drip on Polygon + SEPOLIA'' = [''sepolia'', ''polygon'']
   \<and> getNetworksFromInput ''my wallet''
       = [''sepolia'', ''abstract'', ''optimism-sepolia'', ''polygon'', ''shardeum-atomium'']"
proof -
  have no_keyword:
    "\<not> occurs_in ''all'' (toLowerCase ''drip on Polygon + SEPOLIA'')"
    "\<not> occurs_in ''both'' (toLowerCase ''drip on Polygon + SEPOLIA'')"
    unfolding str_includes_occurs [symmetric] by code_simp+
  have named:
    "filter (\<lambda>n. str_includes (toLowerCase ''drip on Polygon + SEPOLIA'') (toLowerCase n))
       getAvailableNetworks = [''sepolia'', ''polygon'']"
    by code_simp
  have keyword: "occurs_in ''all'' (toLowerCase ''my wallet'')"
    unfolding str_includes_occurs [symmetric] by code_simp
  from getNetworksFromInput_selects [of "''drip on Polygon + SEPOLIA''"] no_keyword named
  have 1: "getNetworksFromInput ''drip on Polygon + SEPOLIA'' = [''sepolia'', ''polygon'']"
    by (simp add: str_includes_occurs)
  from getNetworksFromInput_selects [of "''my wallet''"] keyword
  have 2: "getNetworksFromInput ''my wallet'' = getAvailableNetworks"
    by simp
  show ?thesis using 1 2 by (simp add: getAvailableNetworks_eq)
qed

section \<open>The dispatcher\<close>

lemma dispatch_network: "network (fst (dispatch v to req w)) = nr_name req"
  by (simp add: dispatch_def split: prod.splits sum.splits)

lemma mmt_Cons_fst:
  "fst (makeMultipleTransactions v to (req # reqs) w) =
     fst (dispatch v to req w) # fst (makeMultipleTransactions v to reqs (snd (dispatch v to req w)))"
  by (simp split: prod.splits)

lemma mmt_Cons_snd:
  "snd (makeMultipleTransactions v to (req # reqs) w) =
     snd (makeMultipleTransactions v to reqs (snd (dispatch v to req w)))"
  by (simp split: prod.splits)

lemma mmt_length: "length (fst (makeMultipleTransactions v to reqs w)) = length reqs"
  by (induction reqs arbitrary: w) (simp_all only: mmt_Cons_fst, simp_all)

lemma mmt_networks: "map network (fst (makeMultipleTransactions v to reqs w)) = map nr_name reqs"
  by (induction reqs arbitrary: w) (simp_all only: mmt_Cons_fst, simp_all add: dispatch_network)

lemma mmt_snd_append:
  "snd (makeMultipleTransactions v to (xs @ ys) w) =
     snd (makeMultipleTransactions v to ys (snd (makeMultipleTransactions v to xs w)))"
  by (induction xs arbitrary: w) (simp_all only: mmt_Cons_snd append_Cons, simp_all)

lemma mmt_fst_append:
  "fst (makeMultipleTransactions v to (xs @ ys) w) =
     fst (makeMultipleTransactions v to xs w)
     @ fst (makeMultipleTransactions v to ys (snd (makeMultipleTransactions v to xs w)))"
  by (induction xs arbitrary: w) (simp_all only: mmt_Cons_fst mmt_Cons_snd append_Cons, simp_all)

lemma mmt_nth:
  assumes "i < length reqs"
  shows "fst (makeMultipleTransactions v to reqs w) ! i =
         fst (dispatch v to (reqs ! i) (snd (makeMultipleTransactions v to (take i reqs) w)))"
proof -
  have "reqs = take i reqs @ reqs ! i # drop (Suc i) reqs"
    using assms by (rule id_take_nth_drop)
  then have "fst (makeMultipleTransactions v to reqs w) =
      fst (makeMultipleTransactions v to (take i reqs) w)
      @ fst (makeMultipleTransactions v to (reqs ! i # drop (Suc i) reqs)
               (snd (makeMultipleTransactions v to (take i reqs) w)))"
    using mmt_fst_append [of v to "take i reqs" "reqs ! i # drop (Suc i) reqs" w] by simp
  moreover have "length (fst (makeMultipleTransactions v to (take i reqs) w)) = i"
    using assms by (simp add: mmt_length)
  ultimately show ?thesis
    by (simp add: nth_append split: prod.splits)
qed

lemma mmt_skip:
  assumes "dispatch v to r (snd (makeMultipleTransactions v to xs w))
           = (res, snd (makeMultipleTransactions v to xs w))"
  shows "fst (makeMultipleTransactions v to (xs @ r # ys) w) =
         take (length xs) (fst (makeMultipleTransactions v to (xs @ ys) w)) @ res
         # drop (length xs) (fst (makeMultipleTransactions v to (xs @ ys) w))"
  using assms by (simp add: mmt_fst_append mmt_length split: prod.splits)

lemma dispatch_unknown:
  assumes "getNetwork (nr_name r) = Undefined"
  shows "dispatch v to r w = (\<lparr>network = nr_name r, result = Failure (not_configured_message (nr_name r))\<rparr>, w)"
  using assms by (simp add: dispatch_def makeTransaction_def)

lemma dispatch_insufficient:
  assumes "getNetwork (nr_name r) = Config cfg"
    and "getBalance v (chain cfg) w = (Inr b, w1)"
    and "parseEther v (nr_amount r) = Inr val"
    and "b < val"
  shows "dispatch v to r w =
    (\<lparr>network = nr_name r,
      result = Failure (drained_message (nr_name r) (formatEther v b) (symbol (faucet cfg)))\<rparr>, w1)"
  using assms by (simp add: dispatch_def makeTransaction_def)

lemma dispatch_transport_balance:
  assumes "getNetwork (nr_name r) = Config cfg"
    and "getBalance v (chain cfg) w = (Inl e, w1)"
  shows "dispatch v to r w = (\<lparr>network = nr_name r, result = Failure (message e)\<rparr>, w1)"
  using assms by (simp add: dispatch_def makeTransaction_def)

lemma dispatch_transport_send:
  assumes "getNetwork (nr_name r) = Config cfg"
    and "getBalance v (chain cfg) w = (Inr b, w1)"
    and "parseEther v (nr_amount r) = Inr val"
    and "\<not> b < val"
    and "sendTransaction v (chain cfg) to val w1 = (Inl e, w2)"
  shows "dispatch v to r w = (\<lparr>network = nr_name r, result = Failure (message e)\<rparr>, w2)"
  using assms by (simp add: dispatch_def makeTransaction_def)

text \<open>
  C1. For every recipient, every list of requests and every state of the world,
  \<open>makeMultipleTransactions\<close> returns one result for each request, in the order of the
  requests, each under the name of its own request and each either a success (hash
  and status) or a failure message. The result at a position is the dispatch of the
  request at that position alone, from the world the earlier requests have left: an
  error at one position ends in the entry of that position and never in another. A
  failed dispatch that leaves the world as it was takes nothing from the other
  results: they are those of the batch without the failed request, with the failure
  put in at its place. That is so for every unknown network, which fails before any
  request to a chain is made, and for insufficient funds and for a failure of the
  transport when the read of the balance leaves the world as it was.
\<close>

theorem makeMultipleTransactions_results:
  "length (fst (makeMultipleTransactions v to reqs w)) = length reqs
   \<and> map network (fst (makeMultipleTransactions v to reqs w)) = map nr_name reqs
   \<and> (\<forall>i < length reqs.
         fst (makeMultipleTransactions v to reqs w) ! i =
           fst (dispatch v to (reqs ! i) (snd (makeMultipleTransactions v to (take i reqs) w)))
         \<and> network (fst (makeMultipleTransactions v to reqs w) ! i) = nr_name (reqs ! i)
         \<and> ((\<exists>hash st. result (fst (makeMultipleTransactions v to reqs w) ! i) = Sent hash st)
              \<or> (\<exists>msg. result (fst (makeMultipleTransactions v to reqs w) ! i) = Failure msg)))
   \<and> (\<forall>xs r ys res.
         reqs = xs @ r # ys
         \<and> dispatch v to r (snd (makeMultipleTransactions v to xs w))
             = (res, snd (makeMultipleTransactions v to xs w))
         \<longrightarrow> fst (makeMultipleTransactions v to reqs w) =
               put_in (length xs) res (fst (makeMultipleTransactions v to (xs @ ys) w)))
   \<and> (\<forall>xs r ys.
         reqs = xs @ r # ys \<and> getNetwork (nr_name r) = Undefined
         \<longrightarrow> fst (makeMultipleTransactions v to reqs w) =
               put_in (length xs)
                 \<lparr>network = nr_name r, result = Failure (not_configured_message (nr_name r))\<rparr>
                 (fst (makeMultipleTransactions v to (xs @ ys) w)))
   \<and> (\<forall>xs r ys cfg b val.
         reqs = xs @ r # ys \<and> getNetwork (nr_name r) = Config cfg
         \<and> getBalance v (chain cfg) (snd (makeMultipleTransactions v to xs w))
             = (Inr b, snd (makeMultipleTransactions v to xs w))
         \<and> parseEther v (nr_amount r) = Inr val \<and> b < val
         \<longrightarrow> fst (makeMultipleTransactions v to reqs w) =
               put_in (length xs)
                 \<lparr>network = nr_name r,
                   result = Failure (drained_message (nr_name r) (formatEther v b)
                                       (symbol (faucet cfg)))\<rparr>
                 (fst (makeMultipleTransactions v to (xs @ ys) w)))
   \<and> (\<forall>xs r ys cfg e.
         reqs = xs @ r # ys \<and> getNetwork (nr_name r) = Config cfg
         \<and> getBalance v (chain cfg) (snd (makeMultipleTransactions v to xs w))
             = (Inl e, snd (makeMultipleTransactions v to xs w))
         \<longrightarrow> fst (makeMultipleTransactions v to reqs w) =
               put_in (length xs) \<lparr>network = nr_name r, result = Failure (message e)\<rparr>
                 (fst (makeMultipleTransactions v to (xs @ ys) w)))"
proof -
  let ?rs = "fst (makeMultipleTransactions v to reqs w)"
  have skip: "?rs = put_in (length xs) res (fst (makeMultipleTransactions v to (xs @ ys) w))"
    if "reqs = xs @ r # ys"
      and "dispatch v to r (snd (makeMultipleTransactions v to xs w))
           = (res, snd (makeMultipleTransactions v to xs w))"
    for xs r ys res
    using that mmt_skip [of v to r xs w res ys] by (simp only: put_in_def)
  have c1: "length ?rs = length reqs"
    by (rule mmt_length)
  have c2: "map network ?rs = map nr_name reqs"
    by (rule mmt_networks)
  have c3: "\<forall>i < length reqs.
         ?rs ! i =
           fst (dispatch v to (reqs ! i) (snd (makeMultipleTransactions v to (take i reqs) w)))
         \<and> network (?rs ! i) = nr_name (reqs ! i)
         \<and> ((\<exists>hash st. result (?rs ! i) = Sent hash st) \<or> (\<exists>msg. result (?rs ! i) = Failure msg))"
  proof (intro allI impI conjI)
    fix i assume i: "i < length reqs"
    show "?rs ! i =
        fst (dispatch v to (reqs ! i) (snd (makeMultipleTransactions v to (take i reqs) w)))"
      using i by (rule mmt_nth)
    have "map network ?rs ! i = map nr_name reqs ! i"
      by (simp only: mmt_networks)
    with i show "network (?rs ! i) = nr_name (reqs ! i)"
      by (simp add: mmt_length)
    show "(\<exists>hash st. result (?rs ! i) = Sent hash st) \<or> (\<exists>msg. result (?rs ! i) = Failure msg)"
      by (cases "result (?rs ! i)") simp_all
  qed
  have c4: "\<forall>xs r ys res.
         reqs = xs @ r # ys
         \<and> dispatch v to r (snd (makeMultipleTransactions v to xs w))
             = (res, snd (makeMultipleTransactions v to xs w))
         \<longrightarrow> ?rs = put_in (length xs) res (fst (makeMultipleTransactions v to (xs @ ys) w))"
    using skip by blast
  have c5: "\<forall>xs r ys.
         reqs = xs @ r # ys \<and> getNetwork (nr_name r) = Undefined
         \<longrightarrow> ?rs =
               put_in (length xs)
                 \<lparr>network = nr_name r, result = Failure (not_configured_message (nr_name r))\<rparr>
                 (fst (makeMultipleTransactions v to (xs @ ys) w))"
  proof (intro allI impI)
    fix xs r ys
    assume a: "reqs = xs @ r # ys \<and> getNetwork (nr_name r) = Undefined"
    then have "dispatch v to r (snd (makeMultipleTransactions v to xs w)) =
       (\<lparr>network = nr_name r, result = Failure (not_configured_message (nr_name r))\<rparr>,
        snd (makeMultipleTransactions v to xs w))"
      by (simp add: dispatch_unknown)
    with a show "?rs =
               put_in (length xs)
                 \<lparr>network = nr_name r, result = Failure (not_configured_message (nr_name r))\<rparr>
                 (fst (makeMultipleTransactions v to (xs @ ys) w))"
      using skip by blast
  qed
  have c6: "\<forall>xs r ys cfg b val.
         reqs = xs @ r # ys \<and> getNetwork (nr_name r) = Config cfg
         \<and> getBalance v (chain cfg) (snd (makeMultipleTransactions v to xs w))
             = (Inr b, snd (makeMultipleTransactions v to xs w))
         \<and> parseEther v (nr_amount r) = Inr val \<and> b < val
         \<longrightarrow> ?rs =
               put_in (length xs)
                 \<lparr>network = nr_name r,
                   result = Failure (drained_message (nr_name r) (formatEther v b)
                                       (symbol (faucet cfg)))\<rparr>
                 (fst (makeMultipleTransactions v to (xs @ ys) w))"
  proof (intro allI impI)
    fix xs r ys cfg b val
    assume a: "reqs = xs @ r # ys \<and> getNetwork (nr_name r) = Config cfg
         \<and> getBalance v (chain cfg) (snd (makeMultipleTransactions v to xs w))
             = (Inr b, snd (makeMultipleTransactions v to xs w))
         \<and> parseEther v (nr_amount r) = Inr val \<and> b < val"
    then have "dispatch v to r (snd (makeMultipleTransactions v to xs w)) =
       (\<lparr>network = nr_name r,
         result = Failure (drained_message (nr_name r) (formatEther v b) (symbol (faucet cfg)))\<rparr>,
        snd (makeMultipleTransactions v to xs w))"
      using dispatch_insufficient [of r cfg v "snd (makeMultipleTransactions v to xs w)" b
          "snd (makeMultipleTransactions v to xs w)" val to]
      by blast
    with a show "?rs =
               put_in (length xs)
                 \<lparr>network = nr_name r,
                   result = Failure (drained_message (nr_name r) (formatEther v b)
                                       (symbol (faucet cfg)))\<rparr>
                 (fst (makeMultipleTransactions v to (xs @ ys) w))"
      using skip by blast
  qed
  have c7: "\<forall>xs r ys cfg e.
         reqs = xs @ r # ys \<and> getNetwork (nr_name r) = Config cfg
         \<and> getBalance v (chain cfg) (snd (makeMultipleTransactions v to xs w))
             = (Inl e, snd (makeMultipleTransactions v to xs w))
         \<longrightarrow> ?rs =
               put_in (length xs) \<lparr>network = nr_name r, result = Failure (message e)\<rparr>
                 (fst (makeMultipleTransactions v to (xs @ ys) w))"
  proof (intro allI impI)
    fix xs r ys cfg e
    assume a: "reqs = xs @ r # ys \<and> getNetwork (nr_name r) = Config cfg
         \<and> getBalance v (chain cfg) (snd (makeMultipleTransactions v to xs w))
             = (Inl e, snd (makeMultipleTransactions v to xs w))"
    then have "dispatch v to r (snd (makeMultipleTransactions v to xs w)) =
       (\<lparr>network = nr_name r, result = Failure (message e)\<rparr>,
        snd (makeMultipleTransactions v to xs w))"
      using dispatch_transport_balance [of r cfg v "snd (makeMultipleTransactions v to xs w)" e
          "snd (makeMultipleTransactions v to xs w)" to]
      by blast
    with a show "?rs =
               put_in (length xs) \<lparr>network = nr_name r, result = Failure (message e)\<rparr>
                 (fst (makeMultipleTransactions v to (xs @ ys) w))"
      using skip by blast
  qed
  show ?thesis
    by (intro conjI) (fact c1, fact c2, fact c3, fact c4, fact c5, fact c6, fact c7)
qed

theorem makeMultipleTransactions_results_witness:
  "fst (makeMultipleTransactions sim_client recipient [batch_sepolia, batch_foo, batch_polygon]
          (sim_start 1000000000000000000)) =
     [\<lparr>network = ''sepolia'', result = Sent ''0xtx0'' Pending\<rparr>,
      \<lparr>network = ''foo'', result = Failure ''Network foo not configured''\<rparr>,
      \<lparr>network = ''polygon'', result = Sent ''0xtx1'' Pending\<rparr>]
   \<and> fst (makeMultipleTransactions sim_client recipient [batch_sepolia, batch_polygon]
          (sim_start 1000000000000000000)) =
     [\<lparr>network = ''sepolia'', result = Sent ''0xtx0'' Pending\<rparr>,
      \<lparr>network = ''polygon'', result = Sent ''0xtx1'' Pending\<rparr>]"
proof -
  have others:
    "fst (makeMultipleTransactions sim_client recipient ([batch_sepolia] @ [batch_polygon])
          (sim_start 1000000000000000000)) =
     [\<lparr>network = ''sepolia'', result = Sent ''0xtx0'' Pending\<rparr>,
      \<lparr>network = ''polygon'', result = Sent ''0xtx1'' Pending\<rparr>]"
    by code_simp
  have unknown: "getNetwork (nr_name batch_foo) = Undefined"
    by code_simp
  have msg: "not_configured_message ''foo'' = ''Network foo not configured''"
    and nm: "nr_name batch_foo = ''foo''"
    by code_simp+
  have "[batch_sepolia, batch_foo, batch_polygon] = [batch_sepolia] @ batch_foo # [batch_polygon]"
    by simp
  with unknown
    makeMultipleTransactions_results [of sim_client recipient
      "[batch_sepolia, batch_foo, batch_polygon]" "sim_start 1000000000000000000"]
  have "fst (makeMultipleTransactions sim_client recipient [batch_sepolia, batch_foo, batch_polygon]
          (sim_start 1000000000000000000)) =
        put_in (length [batch_sepolia])
          \<lparr>network = nr_name batch_foo,
            result = Failure (not_configured_message (nr_name batch_foo))\<rparr>
          (fst (makeMultipleTransactions sim_client recipient ([batch_sepolia] @ [batch_polygon])
                 (sim_start 1000000000000000000)))"
    by blast
  then show ?thesis
    using others by (simp add: msg nm put_in_def del: makeMultipleTransactions.simps)
qed

section \<open>The message on insufficient funds\<close>

lemma occurs_in_middle: "occurs_in t (a @ t @ b)"
  unfolding occurs_in_def by blast

lemma occurs_in_end: "occurs_in t (a @ t)"
  using occurs_in_middle [of t a "[]"] by simp

lemma drained_message_parts:
  "occurs_in networkName (drained_message networkName bal unit_name)
   \<and> occurs_in bal (drained_message networkName bal unit_name)
   \<and> occurs_in unit_name (drained_message networkName bal unit_name)"
proof (intro conjI)
  show "occurs_in networkName (drained_message networkName bal unit_name)"
    unfolding drained_message_def by (rule occurs_in_middle)
  have "drained_message networkName bal unit_name =
        (''Faucet is currently drained for '' @ networkName @ ''. We will refill it soon. ''
         @ ''Current balance: '') @ bal @ ('' '' @ unit_name)"
    by (simp add: drained_message_def)
  then show "occurs_in bal (drained_message networkName bal unit_name)"
    by (simp only: occurs_in_middle)
  have "drained_message networkName bal unit_name =
        (''Faucet is currently drained for '' @ networkName @ ''. We will refill it soon. ''
         @ ''Current balance: '' @ bal @ '' '') @ unit_name"
    by (simp add: drained_message_def)
  then show "occurs_in unit_name (drained_message networkName bal unit_name)"
    by (simp only: occurs_in_end)
qed

lemma insufficient_message_parts:
  "occurs_in bal (insufficient_message bal amt) \<and> occurs_in amt (insufficient_message bal amt)"
proof
  show "occurs_in bal (insufficient_message bal amt)"
    unfolding insufficient_message_def by (rule occurs_in_middle)
  have "insufficient_message bal amt =
        (''Insufficient funds. Balance: '' @ bal @ '' ETH, Trying to send: '') @ amt @ '' ETH''"
    by (simp add: insufficient_message_def)
  then show "occurs_in amt (insufficient_message bal amt)"
    by (simp only: occurs_in_middle)
qed

text \<open>
  C3, as the code has it. When \<open>makeTransaction\<close> of the multi-network program fails
  because the balance of the signer is less than the requested amount, both in wei, the
  message is \<^verbatim>\<open>Faucet is currently drained for\<close>, the name of the network,
  \<^verbatim>\<open>. We will refill it soon. Current balance:\<close>, the balance in ether and the symbol of
  the faucet: the name, the balance and the symbol occur in it, and it is the same
  message for every requested amount above the balance. \<open>makeTransaction\<close> of index.ts
  gives the balance in ether and the requested amount as it was asked for.
\<close>

theorem insufficient_funds_message:
  "(getNetwork networkName = Config cfg \<and> getBalance v (chain cfg) w = (Inr b, w1)
      \<and> parseEther v amt = Inr val \<and> b < val
    \<longrightarrow> makeTransaction v to amt networkName w
          = (Inl (Error (drained_message networkName (formatEther v b) (symbol (faucet cfg)))), w1)
        \<and> occurs_in (formatEther v b)
            (drained_message networkName (formatEther v b) (symbol (faucet cfg)))
        \<and> occurs_in networkName
            (drained_message networkName (formatEther v b) (symbol (faucet cfg)))
        \<and> occurs_in (symbol (faucet cfg))
            (drained_message networkName (formatEther v b) (symbol (faucet cfg)))
        \<and> drained_message networkName (formatEther v b) (symbol (faucet cfg))
            = ''Faucet is currently drained for '' @ networkName
              @ ''. We will refill it soon. Current balance: '' @ formatEther v b
              @ '' '' @ symbol (faucet cfg)
        \<and> (parseEther v amt2 = Inr val2 \<and> b < val2
            \<longrightarrow> makeTransaction v to amt2 networkName w = makeTransaction v to amt networkName w))
   \<and> (getBalance v sepolia w = (Inr b, w1) \<and> parseEther v amt = Inr val \<and> b < val
    \<longrightarrow> single_makeTransaction v to amt w
          = (Inl (Error (insufficient_message (formatEther v b) amt)), w1)
        \<and> occurs_in (formatEther v b) (insufficient_message (formatEther v b) amt)
        \<and> occurs_in amt (insufficient_message (formatEther v b) amt))"
  by (simp add: makeTransaction_def single_makeTransaction_def drained_message_parts
      insufficient_message_parts) (simp add: drained_message_def)

text \<open>
  C3 as stated fails: with 0.005 ETH on Sepolia and a request for 0.01, the message of
  the multi-network program holds the balance, and \<^verbatim>\<open>0.01\<close> does not occur in it.
\<close>

theorem drained_message_omits_amount:
  "makeTransaction sim_client recipient ''0.01'' ''sepolia'' (sim_start 5000000000000000)
     = (Inl (Error ''Faucet is currently drained for sepolia. We will refill it soon. Current balance: 0.005 ETH''),
        sim_start 5000000000000000)
   \<and> \<not> str_includes
         ''Faucet is currently drained for sepolia. We will refill it soon. Current balance: 0.005 ETH''
         ''0.01''"
  by code_simp

theorem insufficient_funds_message_witness:
  "makeTransaction sim_client recipient ''0.01'' ''sepolia'' (sim_start 5000000000000000)
     = (Inl (Error (drained_message ''sepolia'' ''0.005'' ''ETH'')), sim_start 5000000000000000)
   \<and> occurs_in ''0.005'' (drained_message ''sepolia'' ''0.005'' ''ETH'')
   \<and> makeTransaction sim_client recipient ''0.02'' ''sepolia'' (sim_start 5000000000000000)
     = makeTransaction sim_client recipient ''0.01'' ''sepolia'' (sim_start 5000000000000000)
   \<and> single_makeTransaction sim_client recipient ''0.01'' (sim_start 5000000000000000)
     = (Inl (Error (insufficient_message ''0.005'' ''0.01'')), sim_start 5000000000000000)
   \<and> occurs_in ''0.01'' (insufficient_message ''0.005'' ''0.01'')"
proof -
  let ?cfg = "\<lparr>chain = sepolia, faucet = \<lparr>symbol = ''ETH'', amount = ''0.01''\<rparr>\<rparr>"
  let ?bal = "formatEther sim_client 5000000000000000"
  have n: "getNetwork ''sepolia'' = Config ?cfg"
    by code_simp
  have b: "getBalance sim_client sepolia (sim_start 5000000000000000)
           = (Inr 5000000000000000, sim_start 5000000000000000)"
    by code_simp
  have b': "getBalance sim_client (chain ?cfg) (sim_start 5000000000000000)
           = (Inr 5000000000000000, sim_start 5000000000000000)"
    using b by simp
  have p: "parseEther sim_client ''0.01'' = Inr 10000000000000000"
    by code_simp
  have p2: "parseEther sim_client ''0.02'' = Inr 20000000000000000"
    by code_simp
  have f: "?bal = ''0.005''"
    by code_simp
  have lt: "(5000000000000000::int) < 10000000000000000"
    and lt2: "(5000000000000000::int) < 20000000000000000"
    by simp_all
  from insufficient_funds_message
        [where networkName = "''sepolia''" and cfg = ?cfg and v = sim_client
           and w = "sim_start 5000000000000000" and b = 5000000000000000
           and ?w1.0 = "sim_start 5000000000000000" and amt = "''0.01''"
           and val = 10000000000000000 and to = recipient and ?amt2.0 = "''0.02''"
           and ?val2.0 = 20000000000000000]
       n b b' p p2 lt lt2
  have "makeTransaction sim_client recipient ''0.01'' ''sepolia'' (sim_start 5000000000000000)
          = (Inl (Error (drained_message ''sepolia'' ?bal (symbol (faucet ?cfg)))),
             sim_start 5000000000000000)
        \<and> occurs_in ?bal (drained_message ''sepolia'' ?bal (symbol (faucet ?cfg)))
        \<and> makeTransaction sim_client recipient ''0.02'' ''sepolia'' (sim_start 5000000000000000)
          = makeTransaction sim_client recipient ''0.01'' ''sepolia'' (sim_start 5000000000000000)
        \<and> single_makeTransaction sim_client recipient ''0.01'' (sim_start 5000000000000000)
          = (Inl (Error (insufficient_message ?bal ''0.01'')), sim_start 5000000000000000)
        \<and> occurs_in ''0.01'' (insufficient_message ?bal ''0.01'')"
    by blast
  then show ?thesis by (simp add: f)
qed

section \<open>The checks on the parsed response\<close>

lemma units_eq_iff: "(units a = units b) = (a = b)"
  by (simp add: units_def inj_map_eq_map inj_on_def)

lemma validate_error:
  assumes "truthy (get_property parsed ''error'')"
  shows "parse_catch (validate_parsed parsed) =
         (if conversion_throws (get_property parsed ''error'') then Inl MalformedResponse
          else Inl UnderstandingFailure)"
proof -
  have "parsed \<noteq> JNull" using assms by (auto simp: get_property_def)
  with assms show ?thesis
    by (simp add: validate_parsed_def parse_catch_def MalformedResponse_def UnderstandingFailure_def
        understanding_message_def)
qed

lemma validate_no_error:
  assumes "\<not> truthy (get_property parsed ''error'')"
  shows "parse_catch (validate_parsed parsed) =
         (if truthy (get_property parsed ''to'') \<and> truthy (get_property parsed ''networks'')
             \<and> truthy (get_property parsed ''explanation'')
             \<and> \<not> conversion_throws (get_property parsed ''to'')
             \<and> regex_test_address (get_property parsed ''to'')
          then Inr parsed else Inl MalformedResponse)"
proof (cases "parsed = JNull")
  case True
  then show ?thesis
    by (simp add: validate_parsed_def parse_catch_def MalformedResponse_def get_property_def
        understanding_message_def single_quote_def)
next
  case False
  with assms show ?thesis
    by (simp add: validate_parsed_def parse_catch_def MalformedResponse_def
        understanding_message_def)
qed

lemma parse_syntax_error:
  assumes "JSON_parse (clean_response response) = None"
  shows "parseAIResponse response = Inl MalformedResponse"
  using assms
  by (simp add: parseAIResponse_def parse_try_def parse_catch_def MalformedResponse_def
      understanding_message_def)

lemma parse_parsed:
  assumes "JSON_parse (clean_response response) = Some parsed"
  shows "parseAIResponse response = parse_catch (validate_parsed parsed)"
  using assms by (simp add: parseAIResponse_def parse_try_def)

lemma markers_differ: "MalformedResponse \<noteq> UnderstandingFailure"
  by code_simp

lemma truthy_iff:
  "truthy p =
     (\<exists>v. p = Some v \<and> v \<noteq> JNull \<and> v \<noteq> JBool False \<and> v \<noteq> JString []
          \<and> (\<forall>n e. v = JNumber n e \<longrightarrow> \<not> number_is_zero n e))"
proof (cases p)
  case None
  then show ?thesis by simp
next
  case (Some v)
  then show ?thesis by (cases v) auto
qed

text \<open>
  C5, as the code has it. A response that parses to a value whose \<^verbatim>\<open>error\<close> property is
  truthy (any value but \<^verbatim>\<open>null\<close>, \<^verbatim>\<open>false\<close>, the empty string and a number that is zero)
  never gives an intent; and when that value has a string form, as every string, every
  boolean and every number has, \<open>parseAIResponse\<close> fails with \<open>UnderstandingFailure\<close>.
\<close>

theorem error_field_understanding_failure:
  "(JSON_parse (clean_response response) = Some parsed \<and> truthy (get_property parsed ''error'')
      \<longrightarrow> (\<forall>intent. parseAIResponse response \<noteq> Inr intent))
   \<and> (JSON_parse (clean_response response) = Some parsed \<and> truthy (get_property parsed ''error'')
        \<and> \<not> conversion_throws (get_property parsed ''error'')
      \<longrightarrow> parseAIResponse response = Inl UnderstandingFailure)
   \<and> truthy p =
       (\<exists>v. p = Some v \<and> v \<noteq> JNull \<and> v \<noteq> JBool False \<and> v \<noteq> JString []
            \<and> (\<forall>n e. v = JNumber n e \<longrightarrow> \<not> number_is_zero n e))
   \<and> \<not> conversion_throws (Some (JString s)) \<and> \<not> conversion_throws (Some (JBool b))
   \<and> \<not> conversion_throws (Some (JNumber m x))"
proof -
  have 1: "\<forall>intent. parseAIResponse response \<noteq> Inr intent"
    if "JSON_parse (clean_response response) = Some parsed"
      and "truthy (get_property parsed ''error'')"
    using that by (simp add: parse_parsed validate_error)
  have 2: "parseAIResponse response = Inl UnderstandingFailure"
    if "JSON_parse (clean_response response) = Some parsed"
      and "truthy (get_property parsed ''error'')"
      and "\<not> conversion_throws (get_property parsed ''error'')"
    using that by (simp add: parse_parsed validate_error)
  have 3: "\<not> conversion_throws (Some (JString s))" "\<not> conversion_throws (Some (JBool b))"
    "\<not> conversion_throws (Some (JNumber m x))"
    by (simp_all add: conversion_throws_def)
  from 1 2 3 truthy_iff [of p] show ?thesis by blast
qed

theorem error_field_understanding_failure_witness:
  "parseAIResponse response_error = Inl UnderstandingFailure
   \<and> parseAIResponse response_error_escaped = Inl UnderstandingFailure"
proof -
  have p: "JSON_parse (clean_response response_error)
           = Some (JObject [(units ''error'', JString (units ''I am not sure what you are asking.''))])"
    by code_simp
  have t: "truthy (get_property
             (JObject [(units ''error'', JString (units ''I am not sure what you are asking.''))]) ''error'')"
    by code_simp
  have c: "\<not> conversion_throws (get_property
             (JObject [(units ''error'', JString (units ''I am not sure what you are asking.''))]) ''error'')"
    by code_simp
  have p': "JSON_parse (clean_response response_error_escaped)
           = Some (JObject [(units ''error'', JString (0x2713 # units '' no''))])"
    by code_simp
  have t': "truthy (get_property (JObject [(units ''error'', JString (0x2713 # units '' no''))]) ''error'')"
    by code_simp
  have c': "\<not> conversion_throws
              (get_property (JObject [(units ''error'', JString (0x2713 # units '' no''))]) ''error'')"
    by code_simp
  from error_field_understanding_failure [where response = response_error] p t c
  have "parseAIResponse response_error = Inl UnderstandingFailure" by blast
  moreover
  from error_field_understanding_failure [where response = response_error_escaped] p' t' c'
  have "parseAIResponse response_error_escaped = Inl UnderstandingFailure" by blast
  ultimately show ?thesis by simp
qed

text \<open>
  C5 as stated fails: an \<^verbatim>\<open>error\<close> field that is the empty string is falsy. The response
  with nothing else fails with \<open>MalformedResponse\<close>, and the response with the three
  required fields is returned as an intent, \<^verbatim>\<open>error\<close> field and all.
\<close>

theorem falsy_error_field_counterexample:
  "parseAIResponse response_empty_error = Inl MalformedResponse
   \<and> MalformedResponse \<noteq> UnderstandingFailure
   \<and> parseAIResponse response_empty_error_intent =
       Inr (JObject [(units ''error'', JString []),
                     (units ''to'', JString (units ''0x2d6DA915F00dcA50b06a60fca010949382f4e0e8'')),
                     (units ''networks'', JArray [sepolia_request]),
                     (units ''explanation'', JString (units ''Sending 0.01 ETH''))])"
  by code_simp

text \<open>
  The theorem on the \<^verbatim>\<open>error\<close> field says nothing of a value without a string form:
  there the line that logs the value throws before the marker error is thrown.
\<close>

lemma error_without_string_form:
  "parseAIResponse response_error_object = Inl MalformedResponse"
  by code_simp

lemma is_address_iff:
  "is_address t =
     (length t = 42 \<and> t ! 0 = of_char CHR ''0''
      \<and> (t ! 1 = of_char CHR ''x'' \<or> t ! 1 = of_char CHR ''X'')
      \<and> (\<forall>i. 2 \<le> i \<and> i < 42 \<longrightarrow> is_hex_unit (t ! i)))"
proof (cases t)
  case Nil
  then show ?thesis by (simp add: is_address_def)
next
  case (Cons c0 t1)
  show ?thesis
  proof (cases t1)
    case Nil
    with Cons show ?thesis by (simp add: is_address_def)
  next
    case (Cons c1 ds)
    have "length ds = 40 \<Longrightarrow>
          list_all is_hex_unit ds = (\<forall>i. 2 \<le> i \<and> i < 42 \<longrightarrow> is_hex_unit ((c0 # c1 # ds) ! i))"
    proof -
      assume l: "length ds = 40"
      have "(\<forall>i. 2 \<le> i \<and> i < 42 \<longrightarrow> is_hex_unit ((c0 # c1 # ds) ! i))
            = (\<forall>n < 40. is_hex_unit (ds ! n))"
      proof
        assume h: "\<forall>i. 2 \<le> i \<and> i < 42 \<longrightarrow> is_hex_unit ((c0 # c1 # ds) ! i)"
        show "\<forall>n < 40. is_hex_unit (ds ! n)"
        proof (intro allI impI)
          fix n :: nat assume n: "n < 40"
          have "is_hex_unit ((c0 # c1 # ds) ! (n + 2))"
            by (rule h [rule_format]) (use n in simp)
          then show "is_hex_unit (ds ! n)" by simp
        qed
      next
        assume h: "\<forall>n < 40. is_hex_unit (ds ! n)"
        show "\<forall>i. 2 \<le> i \<and> i < 42 \<longrightarrow> is_hex_unit ((c0 # c1 # ds) ! i)"
        proof (intro allI impI)
          fix i :: nat assume i: "2 \<le> i \<and> i < 42"
          then have n: "i = (i - 2) + 2" "i - 2 < 40"
            by linarith+
          from h n(2) have "is_hex_unit (ds ! (i - 2))" by blast
          then have "is_hex_unit ((c0 # c1 # ds) ! ((i - 2) + 2))" by simp
          with n(1) show "is_hex_unit ((c0 # c1 # ds) ! i)" by simp
        qed
      qed
      with l show ?thesis by (simp add: list_all_length)
    qed
    with Cons \<open>t = c0 # t1\<close> show ?thesis
      by (auto simp: is_address_def)
  qed
qed

text \<open>
  For a recipient that is a string the check does what C4 says. When the string is not
  \<^verbatim>\<open>0x\<close> or \<^verbatim>\<open>0X\<close> followed by exactly 40 hexadecimal digits, \<open>parseAIResponse\<close> returns
  no intent, whatever the other fields are, and where the check is reached (the response
  has no truthy \<^verbatim>\<open>error\<close> field) it fails with \<open>MalformedResponse\<close>.
\<close>

lemma string_recipient_rejected:
  assumes "JSON_parse (clean_response response) = Some parsed"
    and "get_property parsed ''to'' = Some (JString t)"
    and "\<not> (length t = 42 \<and> t ! 0 = of_char CHR ''0''
            \<and> (t ! 1 = of_char CHR ''x'' \<or> t ! 1 = of_char CHR ''X'')
            \<and> (\<forall>i. 2 \<le> i \<and> i < 42 \<longrightarrow> is_hex_unit (t ! i)))"
  shows "\<forall>intent. parseAIResponse response \<noteq> Inr intent"
    and "\<not> truthy (get_property parsed ''error'') \<Longrightarrow> parseAIResponse response = Inl MalformedResponse"
proof -
  have n: "\<not> regex_test_address (get_property parsed ''to'')"
    using assms(2,3) by (simp add: regex_test_address_def is_address_iff)
  show "\<forall>intent. parseAIResponse response \<noteq> Inr intent"
  proof (cases "truthy (get_property parsed ''error'')")
    case True
    with assms(1) show ?thesis by (simp add: parse_parsed validate_error)
  next
    case False
    with assms(1) n show ?thesis by (simp add: parse_parsed validate_no_error)
  qed
  show "parseAIResponse response = Inl MalformedResponse" if "\<not> truthy (get_property parsed ''error'')"
    using that assms(1) n by (simp add: parse_parsed validate_no_error)
qed

lemma bad_address_rejected: "parseAIResponse response_bad_address = Inl MalformedResponse"
  by code_simp

text \<open>
  An intent that is returned is the parsed response itself, with the recipient as it was
  written: nothing is cut off and nothing is added. Its recipient passed the test of the
  pattern, which a string passes only when it is an address.
\<close>

lemma returned_intent_unchanged:
  assumes "parseAIResponse response = Inr intent"
  shows "JSON_parse (clean_response response) = Some intent"
    and "regex_test_address (get_property intent ''to'')"
    and "get_property intent ''to'' = Some (JString t) \<Longrightarrow> is_address t"
proof -
  show 1: "JSON_parse (clean_response response) = Some intent"
  proof (cases "JSON_parse (clean_response response)")
    case None
    with assms show ?thesis by (simp add: parse_syntax_error)
  next
    case (Some parsed)
    show ?thesis
    proof (cases "truthy (get_property parsed ''error'')")
      case True
      with Some assms show ?thesis by (simp add: parse_parsed validate_error split: if_splits)
    next
      case False
      with Some assms show ?thesis by (simp add: parse_parsed validate_no_error split: if_splits)
    qed
  qed
  show 2: "regex_test_address (get_property intent ''to'')"
  proof (cases "truthy (get_property intent ''error'')")
    case True
    with 1 assms show ?thesis by (simp add: parse_parsed validate_error split: if_splits)
  next
    case False
    with 1 assms show ?thesis by (simp add: parse_parsed validate_no_error split: if_splits)
  qed
  show "is_address t" if "get_property intent ''to'' = Some (JString t)"
    using 2 that by (simp add: regex_test_address_def)
qed

text \<open>
  C4 fails on the code. \<^verbatim>\<open>regex.test(parsed.to)\<close> converts its argument to a string
  first, and an array of one element converts to the string of that element. A response
  whose recipient is an array that holds an address passes all checks and is returned as
  an intent; the recipient of that intent is the array, not a string of \<^verbatim>\<open>0x\<close> and 40
  hexadecimal digits.
\<close>

theorem array_recipient_accepted:
  "parseAIResponse response_array_recipient =
     Inr (JObject [(units ''to'', JArray [JString (units ''0x2d6DA915F00dcA50b06a60fca010949382f4e0e8'')]),
                   (units ''networks'', JArray [sepolia_request]),
                   (units ''explanation'', JString (units ''Sending 0.01 ETH''))])
   \<and> get_property (JObject [(units ''to'', JArray [JString (units ''0x2d6DA915F00dcA50b06a60fca010949382f4e0e8'')]),
                            (units ''networks'', JArray [sepolia_request]),
                            (units ''explanation'', JString (units ''Sending 0.01 ETH''))]) ''to''
       = Some (JArray [JString (units ''0x2d6DA915F00dcA50b06a60fca010949382f4e0e8'')])"
  by code_simp

lemma map_of_filter_key:
  "map_of (filter (\<lambda>p. fst p \<noteq> k) kvs) k' = (if k' = k then None else map_of kvs k')"
  by (induction kvs) auto

lemma get_property_without:
  "get_property (JObject (filter (\<lambda>p. fst p \<noteq> units k) kvs)) k' =
     (if k' = k then None else get_property (JObject kvs) k')"
  by (simp add: get_property_def map_of_filter_key units_eq_iff)

lemma falsy_required_field:
  assumes "k \<in> {''to'', ''networks'', ''explanation''}"
    and "\<not> truthy (get_property parsed k)"
  shows "\<not> truthy (get_property parsed ''to'') \<or> \<not> truthy (get_property parsed ''networks'')
         \<or> \<not> truthy (get_property parsed ''explanation'')"
  using assms by auto

text \<open>
  C10. The check of the required fields tests truthiness, not presence. When \<^verbatim>\<open>to\<close>,
  \<^verbatim>\<open>networks\<close> or \<^verbatim>\<open>explanation\<close> is present with a falsy value (\<^verbatim>\<open>null\<close>, \<^verbatim>\<open>false\<close>, the
  empty string or a number that is zero), \<open>parseAIResponse\<close> returns no intent and does
  exactly what it does on the response without that field. Where the check of the
  required fields is reached, that is when the response has no truthy \<^verbatim>\<open>error\<close> field,
  this is the failure \<open>MalformedResponse\<close>, for the falsy field as for the missing one.
\<close>

theorem falsy_required_field_rejected:
  "(JSON_parse (clean_response response) = Some (JObject kvs)
      \<and> k \<in> {''to'', ''networks'', ''explanation''}
      \<and> get_property (JObject kvs) k = Some x \<and> \<not> truthy (Some x)
      \<longrightarrow> (\<forall>intent. parseAIResponse response \<noteq> Inr intent)
          \<and> parseAIResponse response =
              parse_catch (validate_parsed (JObject (filter (\<lambda>p. fst p \<noteq> units k) kvs)))
          \<and> (\<not> truthy (get_property (JObject kvs) ''error'')
               \<longrightarrow> parseAIResponse response = Inl MalformedResponse))
   \<and> (JSON_parse (clean_response response) = Some (JObject kvs)
      \<and> k \<in> {''to'', ''networks'', ''explanation''}
      \<and> get_property (JObject kvs) k = None
      \<and> \<not> truthy (get_property (JObject kvs) ''error'')
      \<longrightarrow> parseAIResponse response = Inl MalformedResponse)
   \<and> (\<not> truthy (Some x)) =
       (x = JNull \<or> x = JBool False \<or> x = JString [] \<or> (\<exists>m e. x = JNumber m e \<and> number_is_zero m e))"
proof -
  let ?without = "JObject (filter (\<lambda>p. fst p \<noteq> units k) kvs)"
  have p: "parseAIResponse response = parse_catch (validate_parsed (JObject kvs))"
    if "JSON_parse (clean_response response) = Some (JObject kvs)"
    using that by (simp add: parse_parsed)
  have malformed: "parse_catch (validate_parsed parsed) = Inl MalformedResponse"
    if "k \<in> {''to'', ''networks'', ''explanation''}" and "\<not> truthy (get_property parsed k)"
      and "\<not> truthy (get_property parsed ''error'')" for parsed
    using falsy_required_field [OF that(1,2)] that(3) by (auto simp add: validate_no_error)
  have no_intent: "parse_catch (validate_parsed parsed) \<noteq> Inr intent"
    if "k \<in> {''to'', ''networks'', ''explanation''}" and "\<not> truthy (get_property parsed k)"
    for parsed intent
  proof (cases "truthy (get_property parsed ''error'')")
    case True
    then show ?thesis by (simp add: validate_error)
  next
    case False
    then show ?thesis using malformed [OF that] by simp
  qed
  have same: "parse_catch (validate_parsed (JObject kvs)) = parse_catch (validate_parsed ?without)"
    if k: "k \<in> {''to'', ''networks'', ''explanation''}"
      and f: "\<not> truthy (get_property (JObject kvs) k)"
  proof -
    have err: "get_property ?without ''error'' = get_property (JObject kvs) ''error''"
      using k by (auto simp: get_property_without)
    have m: "\<not> truthy (get_property ?without k)"
      by (simp add: get_property_without)
    show ?thesis
    proof (cases "truthy (get_property (JObject kvs) ''error'')")
      case True
      then show ?thesis using err by (simp add: validate_error)
    next
      case False
      then show ?thesis using err malformed [OF k f] malformed [OF k m] by simp
    qed
  qed
  have 1: "(\<forall>intent. parseAIResponse response \<noteq> Inr intent)
          \<and> parseAIResponse response = parse_catch (validate_parsed ?without)
          \<and> (\<not> truthy (get_property (JObject kvs) ''error'')
               \<longrightarrow> parseAIResponse response = Inl MalformedResponse)"
    if a: "JSON_parse (clean_response response) = Some (JObject kvs)"
      and k: "k \<in> {''to'', ''networks'', ''explanation''}"
      and x: "get_property (JObject kvs) k = Some x" and f: "\<not> truthy (Some x)"
  proof -
    from x f have f': "\<not> truthy (get_property (JObject kvs) k)" by simp
    show ?thesis
      using p [OF a] no_intent [OF k f'] same [OF k f'] malformed [OF k f'] by simp
  qed
  have 2: "parseAIResponse response = Inl MalformedResponse"
    if a: "JSON_parse (clean_response response) = Some (JObject kvs)"
      and k: "k \<in> {''to'', ''networks'', ''explanation''}"
      and x: "get_property (JObject kvs) k = None"
      and e: "\<not> truthy (get_property (JObject kvs) ''error'')"
  proof -
    from x have "\<not> truthy (get_property (JObject kvs) k)" by simp
    from malformed [OF k this e] p [OF a] show ?thesis by simp
  qed
  have 3: "(\<not> truthy (Some x)) =
       (x = JNull \<or> x = JBool False \<or> x = JString [] \<or> (\<exists>m e. x = JNumber m e \<and> number_is_zero m e))"
    by (cases x) auto
  from 1 2 3 show ?thesis by blast
qed

theorem falsy_required_field_rejected_witness:
  "parseAIResponse response_empty_to = Inl MalformedResponse
   \<and> parseAIResponse response_empty_to =
       parse_catch (validate_parsed (JObject [(units ''networks'', JArray [sepolia_request]),
                                              (units ''explanation'', JString (units ''Sending 0.01 ETH''))]))"
proof -
  have p: "JSON_parse (clean_response response_empty_to) =
           Some (JObject [(units ''to'', JString []),
                          (units ''networks'', JArray [sepolia_request]),
                          (units ''explanation'', JString (units ''Sending 0.01 ETH''))])"
    by code_simp
  have x: "get_property (JObject [(units ''to'', JString []),
                          (units ''networks'', JArray [sepolia_request]),
                          (units ''explanation'', JString (units ''Sending 0.01 ETH''))]) ''to''
           = Some (JString [])"
    by code_simp
  have e: "\<not> truthy (get_property (JObject [(units ''to'', JString []),
                          (units ''networks'', JArray [sepolia_request]),
                          (units ''explanation'', JString (units ''Sending 0.01 ETH''))]) ''error'')"
    by code_simp
  have f: "filter (\<lambda>p. fst p \<noteq> units ''to'')
             [(units ''to'', JString []), (units ''networks'', JArray [sepolia_request]),
              (units ''explanation'', JString (units ''Sending 0.01 ETH''))]
           = [(units ''networks'', JArray [sepolia_request]),
              (units ''explanation'', JString (units ''Sending 0.01 ETH''))]"
    by code_simp
  have k: "''to'' \<in> {''to'', ''networks'', ''explanation''}" by simp
  have t: "\<not> truthy (Some (JString []))" by simp
  from falsy_required_field_rejected
         [where response = response_empty_to and k = "''to''" and x = "JString []"
            and kvs = "[(units ''to'', JString []), (units ''networks'', JArray [sepolia_request]),
                        (units ''explanation'', JString (units ''Sending 0.01 ETH''))]"] p k x t e
  have "parseAIResponse response_empty_to = Inl MalformedResponse
        \<and> parseAIResponse response_empty_to =
            parse_catch (validate_parsed (JObject (filter (\<lambda>p. fst p \<noteq> units ''to'')
               [(units ''to'', JString []), (units ''networks'', JArray [sepolia_request]),
                (units ''explanation'', JString (units ''Sending 0.01 ETH''))])))"
    by blast
  then show ?thesis unfolding f .
qed

section \<open>The fallback patterns of index.ts\<close>

lemma startsWith_append: "startsWith s key \<Longrightarrow> s = key @ drop (length key) s"
  by (induction s key rule: startsWith.induct) auto

lemma startsWith_self: "startsWith (key @ r) key"
  by (simp add: startsWith_prefix)

lemma field_occurs_Cons: "field_occurs key cls s \<Longrightarrow> field_occurs key cls (c # s)"
  unfolding field_occurs_def
  by (metis append_Cons)

lemma field_occurs_here:
  assumes "startsWith s key" and "dropWhile is_space (drop (length key) s) = d # t" and "cls d"
  shows "field_occurs key cls s"
proof -
  let ?r = "drop (length key) s"
  have "s = key @ ?r" using assms(1) by (rule startsWith_append)
  moreover have "?r = takeWhile is_space ?r @ d # t"
    using assms(2) takeWhile_dropWhile_id [of is_space ?r] by simp
  ultimately have "s = [] @ key @ takeWhile is_space ?r @ d # t" by simp
  moreover have "list_all is_space (takeWhile is_space ?r)"
    by (simp add: list_all_iff) (meson set_takeWhileD)
  ultimately show ?thesis using assms(3) unfolding field_occurs_def by blast
qed

lemma dropWhile_spaces:
  assumes "list_all is_space ws" and "\<not> is_space d"
  shows "dropWhile is_space (ws @ d # t) = d # t"
  using assms by (induction ws) auto

lemma match_field_iff:
  assumes "\<And>c. cls c \<Longrightarrow> \<not> is_space c"
  shows "(match_field key cls s \<noteq> None) = field_occurs key cls s"
proof (induction s)
  case Nil
  show ?case by (simp add: field_occurs_def)
next
  case (Cons c s)
  let ?g = "takeWhile cls (dropWhile is_space (drop (length key) (c # s)))"
  show ?case
  proof (cases "startsWith (c # s) key \<and> ?g \<noteq> []")
    case True
    then obtain d t where dt: "dropWhile is_space (drop (length key) (c # s)) = d # t" "cls d"
      by (cases "dropWhile is_space (drop (length key) (c # s))") (auto split: if_splits)
    with True have "field_occurs key cls (c # s)"
      using field_occurs_here [of "c # s" key d t cls] by simp
    with True show ?thesis by simp
  next
    case False
    then have m: "match_field key cls (c # s) = match_field key cls s" by auto
    have "field_occurs key cls (c # s) = field_occurs key cls s"
    proof
      assume "field_occurs key cls s"
      then show "field_occurs key cls (c # s)" by (rule field_occurs_Cons)
    next
      assume "field_occurs key cls (c # s)"
      then obtain pre ws d post where
        e: "c # s = pre @ key @ ws @ d # post" "list_all is_space ws" "cls d"
        unfolding field_occurs_def by blast
      show "field_occurs key cls s"
      proof (cases pre)
        case Nil
        with e have s: "c # s = key @ ws @ d # post" by simp
        then have "startsWith (c # s) key" by (metis startsWith_self)
        moreover from s have "drop (length key) (c # s) = ws @ d # post" by (metis append_eq_conv_conj)
        then have "dropWhile is_space (drop (length key) (c # s)) = d # post"
          using e assms dropWhile_spaces by simp
        then have "?g \<noteq> []" using e by simp
        ultimately show ?thesis using False by simp
      next
        case (Cons p pre')
        with e have "s = pre' @ key @ ws @ d # post" by simp
        with e show ?thesis unfolding field_occurs_def by blast
      qed
    qed
    with m Cons.IH show ?thesis by simp
  qed
qed

lemma line_terminator_is_space: "is_line_terminator c \<Longrightarrow> is_space c"
  by (auto simp: is_line_terminator_def is_space_def)

lemma explanation_group_iff:
  "(explanation_group r \<noteq> None) =
     (\<exists>ws d post. r = ws @ d # post \<and> list_all is_space ws \<and> \<not> is_line_terminator d)"
proof
  assume g: "explanation_group r \<noteq> None"
  show "\<exists>ws d post. r = ws @ d # post \<and> list_all is_space ws \<and> \<not> is_line_terminator d"
  proof (cases "dropWhile is_space r")
    case (Cons d t)
    then have "\<not> is_space d" by (metis hd_dropWhile list.sel(1) list.distinct(1))
    then have "\<not> is_line_terminator d" using line_terminator_is_space by blast
    moreover have "r = takeWhile is_space r @ d # t"
      using Cons takeWhile_dropWhile_id [of is_space r] by simp
    moreover have "list_all is_space (takeWhile is_space r)"
      by (simp add: list_all_iff) (meson set_takeWhileD)
    ultimately show ?thesis by blast
  next
    case Nil
    then have all: "list_all is_space r" by (simp add: list_all_iff dropWhile_eq_Nil_conv)
    from g Nil obtain c t where ct: "dropWhile is_line_terminator (rev r) = c # t"
      by (cases "dropWhile is_line_terminator (rev r)") (auto simp: explanation_group_def)
    then have nlt: "\<not> is_line_terminator c" by (metis hd_dropWhile list.sel(1) list.distinct(1))
    have "rev r = takeWhile is_line_terminator (rev r) @ c # t"
      using ct takeWhile_dropWhile_id [of is_line_terminator "rev r"] by simp
    then have "r = rev (takeWhile is_line_terminator (rev r) @ c # t)"
      by (metis rev_rev_ident)
    then have r: "r = rev t @ c # rev (takeWhile is_line_terminator (rev r))" by simp
    with all have "list_all is_space (rev t)"
      by (metis list_all_append)
    with r nlt show ?thesis by blast
  qed
next
  assume "\<exists>ws d post. r = ws @ d # post \<and> list_all is_space ws \<and> \<not> is_line_terminator d"
  then obtain ws d post where
    r: "r = ws @ d # post" and ws: "list_all is_space ws" and d: "\<not> is_line_terminator d"
    by blast
  show "explanation_group r \<noteq> None"
  proof (cases "dropWhile is_space r")
    case (Cons x xs)
    then show ?thesis by (simp add: explanation_group_def)
  next
    case Nil
    have "d \<in> set (rev r)" using r by simp
    with d have "dropWhile is_line_terminator (rev r) \<noteq> []"
      by (auto simp: dropWhile_eq_Nil_conv)
    with Nil show ?thesis by (auto simp: explanation_group_def split: list.splits)
  qed
qed

lemma match_explanation_step:
  assumes "key = ''explanation:''"
  shows "match_explanation (c # s) =
         (if startsWith (c # s) key \<and> explanation_group (drop (length key) (c # s)) \<noteq> None
          then explanation_group (drop (length key) (c # s))
          else match_explanation s)"
proof -
  have l: "length ''explanation:'' = 12" by simp
  show ?thesis unfolding assms l by (rule match_explanation.simps(2))
qed

lemma match_explanation_iff_key:
  assumes k: "key = ''explanation:''"
  shows "(match_explanation s \<noteq> None) = field_occurs key (\<lambda>c. \<not> is_line_terminator c) s"
proof (induction s)
  case Nil
  show ?case by (simp add: field_occurs_def)
next
  case (Cons c s)
  let ?cls = "\<lambda>c. \<not> is_line_terminator c"
  note step = match_explanation_step [OF k, of c s]
  show ?case
  proof (cases "startsWith (c # s) key \<and> explanation_group (drop (length key) (c # s)) \<noteq> None")
    case True
    then obtain ws d post where
      g: "drop (length key) (c # s) = ws @ d # post" "list_all is_space ws" "\<not> is_line_terminator d"
      using explanation_group_iff [of "drop (length key) (c # s)"] by blast
    from True have "c # s = key @ drop (length key) (c # s)"
      using startsWith_append by blast
    with g(1) have "c # s = [] @ key @ ws @ d # post" by (simp only: append_Nil)
    with g have "field_occurs key ?cls (c # s)" unfolding field_occurs_def by blast
    with True step show ?thesis by (simp del: match_explanation.simps)
  next
    case False
    with step have m: "match_explanation (c # s) = match_explanation s"
      by (auto simp del: match_explanation.simps)
    have "field_occurs key ?cls (c # s) = field_occurs key ?cls s"
    proof
      assume "field_occurs key ?cls s"
      then show "field_occurs key ?cls (c # s)" by (rule field_occurs_Cons)
    next
      assume "field_occurs key ?cls (c # s)"
      then obtain pre ws d post where
        e: "c # s = pre @ key @ ws @ d # post" "list_all is_space ws" "\<not> is_line_terminator d"
        unfolding field_occurs_def by blast
      show "field_occurs key ?cls s"
      proof (cases pre)
        case Nil
        with e have s: "c # s = key @ ws @ d # post" by simp
        then have "startsWith (c # s) key" by (metis startsWith_self)
        moreover from s have "drop (length key) (c # s) = ws @ d # post"
          by (metis append_eq_conv_conj)
        then have "explanation_group (drop (length key) (c # s)) \<noteq> None"
          using e explanation_group_iff [of "drop (length key) (c # s)"] by blast
        ultimately show ?thesis using False by blast
      next
        case (Cons p pre')
        with e have "s = pre' @ key @ ws @ d # post" by simp
        with e show ?thesis unfolding field_occurs_def by blast
      qed
    qed
    with m Cons.IH show ?thesis by (simp del: match_explanation.simps)
  qed
qed

lemma match_explanation_iff:
  "(match_explanation s \<noteq> None) = field_occurs ''explanation:'' (\<lambda>c. \<not> is_line_terminator c) s"
  by (rule match_explanation_iff_key) (rule refl)

lemma to_class_no_space: "is_hex_digit c \<or> c = CHR ''x'' \<Longrightarrow> \<not> is_space c"
  by (auto simp: is_hex_digit_def is_space_def)

lemma amount_class_no_space: "is_digit c \<or> c = CHR ''.'' \<Longrightarrow> \<not> is_space c"
  by (auto simp: is_digit_def is_space_def)

lemma regex_fallback_iff:
  "(regex_fallback response \<noteq> None) =
     (field_occurs ''to:'' (\<lambda>c. is_hex_digit c \<or> c = CHR ''x'') response
      \<and> field_occurs ''amount:'' (\<lambda>c. is_digit c \<or> c = CHR ''.'') response
      \<and> field_occurs ''explanation:'' (\<lambda>c. \<not> is_line_terminator c) response)"
proof -
  have t: "(match_to response \<noteq> None)
           = field_occurs ''to:'' (\<lambda>c. is_hex_digit c \<or> c = CHR ''x'') response"
    unfolding match_to_def by (rule match_field_iff) (rule to_class_no_space)
  have a: "(match_amount response \<noteq> None)
           = field_occurs ''amount:'' (\<lambda>c. is_digit c \<or> c = CHR ''.'') response"
    unfolding match_amount_def by (rule match_field_iff) (rule amount_class_no_space)
  have "(regex_fallback response \<noteq> None) =
        (match_to response \<noteq> None \<and> match_amount response \<noteq> None
         \<and> match_explanation response \<noteq> None)"
    by (auto simp: regex_fallback_def split: option.splits)
  then show ?thesis
    by (simp only: t a match_explanation_iff)
qed

text \<open>
  C6, as the code has it. In index.ts, when the structured decoding of a response fails
  (\<^verbatim>\<open>JSON.parse\<close> throws, or a field is no string), \<open>parseAIResponse\<close> returns what the
  three patterns \<^verbatim>\<open>to:\<close>, \<^verbatim>\<open>amount:\<close> and \<^verbatim>\<open>explanation:\<close> extract, and fails only when
  one of them does not match; when the decoding succeeds the patterns are not used. The
  patterns match exactly when each key occurs in the response followed by white space
  and a character of its class.
\<close>

theorem regex_fallback_second_chance:
  "(decode_json response = Inl e
      \<longrightarrow> single_parseAIResponse response =
            (case regex_fallback response of
               Some details \<Rightarrow> Inr details
             | None \<Rightarrow> Inl (Error ''Failed to parse AI response'')))
   \<and> (decode_json response = Inr d \<longrightarrow> single_parseAIResponse response = Inr d)
   \<and> (single_parseAIResponse response = Inl x
      \<longrightarrow> (\<exists>err. decode_json response = Inl err) \<and> regex_fallback response = None
          \<and> x = Error ''Failed to parse AI response'')
   \<and> (regex_fallback response \<noteq> None) =
       (field_occurs ''to:'' (\<lambda>c. is_hex_digit c \<or> c = CHR ''x'') response
        \<and> field_occurs ''amount:'' (\<lambda>c. is_digit c \<or> c = CHR ''.'') response
        \<and> field_occurs ''explanation:'' (\<lambda>c. \<not> is_line_terminator c) response)"
proof -
  have 1: "single_parseAIResponse response =
            (case regex_fallback response of
               Some details \<Rightarrow> Inr details
             | None \<Rightarrow> Inl (Error ''Failed to parse AI response''))"
    if "decode_json response = Inl e"
    using that by (simp add: single_parseAIResponse_def)
  have 2: "single_parseAIResponse response = Inr d" if "decode_json response = Inr d"
    using that by (simp add: single_parseAIResponse_def)
  have 3: "(\<exists>err. decode_json response = Inl err) \<and> regex_fallback response = None
          \<and> x = Error ''Failed to parse AI response''"
    if "single_parseAIResponse response = Inl x"
    using that by (auto simp: single_parseAIResponse_def split: sum.splits option.splits)
  from 1 2 3 regex_fallback_iff [of response] show ?thesis by blast
qed

theorem regex_fallback_second_chance_witness:
  "single_parseAIResponse response_lines =
     Inr \<lparr>td_to = units ''0x2d6DA915F00dcA50b06a60fca010949382f4e0e8'', td_amount = units ''0.01'',
          td_explanation = units ''Sending 0.01 ETH''\<rparr>"
proof -
  have d: "decode_json response_lines = Inl (SyntaxError ''Unexpected token in JSON'')"
    by code_simp
  have f: "regex_fallback response_lines =
           Some \<lparr>td_to = units ''0x2d6DA915F00dcA50b06a60fca010949382f4e0e8'', td_amount = units ''0.01'',
                 td_explanation = units ''Sending 0.01 ETH''\<rparr>"
    by code_simp
  from regex_fallback_second_chance
         [where response = response_lines and e = "SyntaxError ''Unexpected token in JSON''"] d
  have "single_parseAIResponse response_lines =
            (case regex_fallback response_lines of
               Some details \<Rightarrow> Inr details
             | None \<Rightarrow> Inl (Error ''Failed to parse AI response''))"
    by blast
  then show ?thesis by (simp only: f option.case)
qed

text \<open>
  C6 as stated fails for the multi-network program, whose \<open>parseAIResponse\<close> has no
  fallback: it fails on a response in lines that all three patterns match.
\<close>

theorem no_fallback_counterexample:
  "parseAIResponse response_lines = Inl MalformedResponse
   \<and> regex_fallback response_lines =
       Some \<lparr>td_to = units ''0x2d6DA915F00dcA50b06a60fca010949382f4e0e8'', td_amount = units ''0.01'',
             td_explanation = units ''Sending 0.01 ETH''\<rparr>"
  by code_simp

section \<open>The poll of index.ts\<close>

lemma tick_shift: "tick v hash w (Suc n) = tick v hash (snd (tick v hash w 0)) n"
  by (induction n) simp_all

lemma first_final_0: "first_final v hash w 0 = (fst (tick v hash w 0) \<noteq> Pending)"
  by (simp add: first_final_def)

lemma first_final_Suc:
  "first_final v hash w (Suc n) =
     (fst (tick v hash w 0) = Pending \<and> first_final v hash (snd (tick v hash w 0)) n)"
  by (simp only: first_final_def All_less_Suc2 tick_shift) blast

lemma poll_final:
  assumes "fst (tick v hash w 0) \<noteq> Pending"
  shows "poll v hash now log w =
         Some (log @ [(now + poll_interval, fst (tick v hash w 0))], snd (tick v hash w 0))"
  using assms by (subst poll.simps) (auto split: prod.splits)

lemma poll_pending:
  assumes "fst (tick v hash w 0) = Pending"
  shows "poll v hash now log w =
         poll v hash (now + poll_interval) (log @ [(now + poll_interval, Pending)])
           (snd (tick v hash w 0))"
  using assms by (subst poll.simps) (auto split: prod.splits)

lemma poll_first_final:
  assumes "first_final v hash w n"
  shows "poll v hash now log w =
         Some (log @ map (\<lambda>m. (now + (int m + 1) * poll_interval, fst (tick v hash w m))) [0..<Suc n],
               snd (tick v hash w n))"
  using assms
proof (induction n arbitrary: w now log)
  case 0
  then have "fst (tick v hash w 0) \<noteq> Pending" by (simp add: first_final_0 del: tick.simps)
  then show ?case by (simp add: poll_final)
next
  case (Suc n)
  let ?w1 = "snd (tick v hash w 0)"
  from Suc.prems have p0: "fst (tick v hash w 0) = Pending"
    and ff: "first_final v hash ?w1 n"
    by (simp_all only: first_final_Suc)
  from Suc.IH [OF ff, of "now + poll_interval" "log @ [(now + poll_interval, Pending)]"]
  have "poll v hash now log w =
        Some ((log @ [(now + poll_interval, Pending)])
              @ map (\<lambda>m. (now + poll_interval + (int m + 1) * poll_interval,
                           fst (tick v hash ?w1 m))) [0..<Suc n],
              snd (tick v hash ?w1 n))"
    using p0 by (simp only: poll_pending)
  moreover have "map (\<lambda>m. (now + (int m + 1) * poll_interval, fst (tick v hash w m))) [0..<Suc (Suc n)]
        = (now + poll_interval, Pending)
          # map (\<lambda>m. (now + poll_interval + (int m + 1) * poll_interval,
                       fst (tick v hash ?w1 m))) [0..<Suc n]"
  proof -
    have "[0..<Suc (Suc n)] = 0 # [Suc 0..<Suc (Suc n)]"
      by (rule upt_conv_Cons) simp
    also have "[Suc 0..<Suc (Suc n)] = map Suc [0..<Suc n]"
      by (rule map_Suc_upt [symmetric])
    finally have "[0..<Suc (Suc n)] = 0 # map Suc [0..<Suc n]" .
    then have "map (\<lambda>m. (now + (int m + 1) * poll_interval, fst (tick v hash w m))) [0..<Suc (Suc n)]
        = (now + (int 0 + 1) * poll_interval, fst (tick v hash w 0))
          # map (\<lambda>m. (now + (int (Suc m) + 1) * poll_interval, fst (tick v hash w (Suc m)))) [0..<Suc n]"
      by (simp only: list.map map_map comp_def)
    also have "\<dots> = (now + poll_interval, Pending)
          # map (\<lambda>m. (now + poll_interval + (int m + 1) * poll_interval,
                       fst (tick v hash ?w1 m))) [0..<Suc n]"
      using p0 by (simp only: tick_shift) (simp add: algebra_simps del: tick.simps)
    finally show ?thesis .
  qed
  ultimately show ?case
    by (simp only: tick_shift append_assoc append_Cons append_Nil)
qed

lemma poll_returns_first_final:
  assumes "poll v hash now log w = Some y"
  shows "\<exists>n. first_final v hash w n"
proof (rule poll.raw_induct [where P = "\<lambda>v hash now log w y. \<exists>n. first_final v hash w n", OF _ assms])
  fix poll' :: "'a viem \<Rightarrow> string \<Rightarrow> int \<Rightarrow> (int \<times> tx_status) list \<Rightarrow> 'a
                \<Rightarrow> ((int \<times> tx_status) list \<times> 'a) option"
    and v hash now log w y
  assume IH: "\<And>v hash now log w y. poll' v hash now log w = Some y \<Longrightarrow> \<exists>n. first_final v hash w n"
    and step: "(case single_getTransactionStatus v hash (elapse v poll_interval w) of
          (st, w1) \<Rightarrow>
            if st \<noteq> Pending then Some (log @ [(now + poll_interval, st)], w1)
            else poll' v hash (now + poll_interval) (log @ [(now + poll_interval, st)]) w1) = Some y"
  show "\<exists>n. first_final v hash w n"
  proof (cases "fst (tick v hash w 0) = Pending")
    case False
    then have "first_final v hash w 0" by (simp add: first_final_0 del: tick.simps)
    then show ?thesis by blast
  next
    case True
    with step have "poll' v hash (now + poll_interval) (log @ [(now + poll_interval, Pending)])
                      (snd (tick v hash w 0)) = Some y"
      by (auto split: prod.splits)
    from IH [OF this] obtain n where "first_final v hash (snd (tick v hash w 0)) n" by blast
    with True have "first_final v hash w (Suc n)"
      by (simp only: first_final_Suc)
    then show ?thesis by blast
  qed
qed

text \<open>
  C8, as the code has it, for the poll of index.ts, with the timer taken as exact and its
  callbacks run one after the other. The status is read again once every period of
  5000 milliseconds. When the n-th read is the first that does not see \<open>Pending\<close>, the
  poll ends there: it has made n + 1 reads, at the times 5000, 10000, ... after its
  start, all but the last have seen \<open>Pending\<close>, and the last status is the one it
  reports. A poll that ends has seen such a read, and its last status is not
  \<open>Pending\<close>. While every read sees \<open>Pending\<close> the poll does not end.
\<close>

theorem poll_until_final:
  "(first_final v hash w n
      \<longrightarrow> poll v hash now log w =
            Some (log @ map (\<lambda>m. (now + (int m + 1) * poll_interval, fst (tick v hash w m)))
                         [0..<Suc n],
                  snd (tick v hash w n)))
   \<and> (poll v hash now log w = Some (log', w')
      \<longrightarrow> (\<exists>n. first_final v hash w n) \<and> snd (last log') \<noteq> Pending)
   \<and> ((\<forall>n. fst (tick v hash w n) = Pending) \<longrightarrow> poll v hash now log w = None)
   \<and> poll_interval = 5000"
proof -
  have 1: "poll v hash now log w =
            Some (log @ map (\<lambda>m. (now + (int m + 1) * poll_interval, fst (tick v hash w m)))
                         [0..<Suc n],
                  snd (tick v hash w n))"
    if "first_final v hash w n"
    using that by (rule poll_first_final)
  have 2: "(\<exists>n. first_final v hash w n) \<and> snd (last log') \<noteq> Pending"
    if p: "poll v hash now log w = Some (log', w')"
  proof -
    from poll_returns_first_final [OF p] obtain k where k: "first_final v hash w k"
      by blast
    from poll_first_final [OF k, of now log] p
    have "log' = log @ map (\<lambda>m. (now + (int m + 1) * poll_interval, fst (tick v hash w m)))
                         [0..<Suc k]"
      by simp
    then have "snd (last log') = fst (tick v hash w k)"
      by (simp del: tick.simps)
    moreover from k have "fst (tick v hash w k) \<noteq> Pending"
      by (simp add: first_final_def del: tick.simps)
    ultimately have "snd (last log') \<noteq> Pending" by (simp del: tick.simps)
    moreover from k have "\<exists>n. first_final v hash w n" ..
    ultimately show ?thesis by (rule conjI [rotated])
  qed
  have 3: "poll v hash now log w = None" if a: "\<forall>n. fst (tick v hash w n) = Pending"
  proof (cases "poll v hash now log w")
    case None
    then show ?thesis .
  next
    case (Some y)
    from poll_returns_first_final [OF Some] obtain k where "first_final v hash w k"
      by blast
    then have "fst (tick v hash w k) \<noteq> Pending"
      by (simp add: first_final_def del: tick.simps)
    moreover from a have "fst (tick v hash w k) = Pending" ..
    ultimately show ?thesis by (simp del: tick.simps)
  qed
  from 1 2 3 show ?thesis by (simp only: poll_interval_def) blast
qed

theorem poll_until_final_witness:
  "poll sim_client ''0xtx0'' 0 [] sim_sent_world =
     Some ([(5000, Pending), (10000, Pending), (15000, Success)],
           snd (tick sim_client ''0xtx0'' sim_sent_world 2))"
proof -
  have t0: "fst (tick sim_client ''0xtx0'' sim_sent_world 0) = Pending"
    and t1: "fst (tick sim_client ''0xtx0'' sim_sent_world (Suc 0)) = Pending"
    and t2: "fst (tick sim_client ''0xtx0'' sim_sent_world 2) = Success"
    by code_simp+
  have "\<forall>m<2. fst (tick sim_client ''0xtx0'' sim_sent_world m) = Pending"
    using t0 t1 by (auto simp: less_2_cases_iff simp del: tick.simps)
  with t2 have ff: "first_final sim_client ''0xtx0'' sim_sent_world 2"
    by (simp add: first_final_def del: tick.simps)
  have l: "[0..<Suc 2] = [0, Suc 0, 2]"
    by (simp add: upt_rec numeral_2_eq_2)
  from poll_until_final [where v = sim_client and hash = "''0xtx0''" and w = sim_sent_world
      and n = 2 and now = 0 and log = "[]"] ff
  have "poll sim_client ''0xtx0'' 0 [] sim_sent_world =
        Some ([] @ map (\<lambda>m. (0 + (int m + 1) * poll_interval,
                              fst (tick sim_client ''0xtx0'' sim_sent_world m))) [0..<Suc 2],
              snd (tick sim_client ''0xtx0'' sim_sent_world 2))"
    by blast
  then show ?thesis
    by (simp only: l list.map t0 t1 t2 append_Nil) (simp add: poll_interval_def del: tick.simps)
qed

text \<open>
  C8 as stated fails for the multi-network program: \<open>makeMultipleTransactions\<close> reads the
  status once, directly after the transfer, and its result holds \<open>Pending\<close>; the chain
  was asked for the receipt one time.
\<close>

theorem single_status_check_counterexample:
  "makeMultipleTransactions sim_client recipient [batch_sepolia] (sim_start 1000000000000000000)
     = ([\<lparr>network = ''sepolia'', result = Sent ''0xtx0'' Pending\<rparr>],
        \<lparr>sim_balance = 990000000000000000, sim_clock = 0, sim_mined_at = [(''0xtx0'', 12000)],
          sim_receipt_reads = 1\<rparr>)"
  by code_simp

section \<open>The code fences\<close>

lemma startsWith_appendI: "startsWith p pat \<Longrightarrow> startsWith (p @ t) pat"
  by (simp add: startsWith_prefix)

lemma startsWith_shorter: "startsWith x (a @ b) \<Longrightarrow> startsWith x a"
  unfolding startsWith_prefix by (rule append_prefixD)

lemma startsWith_drop_append:
  assumes "startsWith p pat"
  shows "drop (length pat) (p @ t) = drop (length pat) p @ t"
proof -
  from assms have "length pat \<le> length p"
    by (simp add: startsWith_prefix prefix_length_le)
  then show ?thesis by simp
qed

lemma no_straddle:
  assumes "\<not> startsWith r pat" and "h \<notin> set pat"
  shows "\<not> startsWith (r @ h # t) pat"
proof
  assume "startsWith (r @ h # t) pat"
  then have "prefix pat (r @ h # t)" by (simp only: startsWith_prefix)
  then have "prefix pat r \<or> (\<exists>us. pat = r @ us \<and> prefix us (h # t))"
    by (simp only: prefix_append)
  with assms(1) obtain us where us: "pat = r @ us" "prefix us (h # t)"
    by (auto simp: startsWith_prefix)
  show False
  proof (cases us)
    case Nil
    with us(1) assms(1) show False by (simp add: startsWith_prefix)
  next
    case (Cons u us')
    with us(2) have "u = h" by simp
    with Cons us(1) assms(2) show False by simp
  qed
qed

lemma strip_fences_nonempty:
  assumes "q \<noteq> []"
  shows "strip_fences q =
     (if startsWith q (fence @ ''json'' @ [LF]) then strip_fences (drop 8 q)
      else if startsWith q (fence @ ''json'') then strip_fences (drop 7 q)
      else if startsWith q (LF # fence) then strip_fences (drop 4 q)
      else if startsWith q fence then strip_fences (drop 3 q)
      else hd q # strip_fences (tl q))"
  using assms by (cases q) simp_all

lemma pattern_lengths:
  "length (fence @ ''json'' @ [LF]) = 8" "length (fence @ ''json'') = 7"
  "length (LF # fence) = 4" "length fence = 3"
  by (simp_all add: fence_def)

lemma LF_not_in_patterns: "LF \<notin> set (fence @ ''json'')" "LF \<notin> set fence"
  by (simp_all add: fence_def LF_def backtick_def)

lemma strip_fences_closing: "strip_fences (LF # fence) = []" "strip_fences fence = []"
  by code_simp+

lemma no_straddle_closing:
  assumes "q \<noteq> []" and "\<not> startsWith q (LF # fence)"
  shows "\<not> startsWith (q @ LF # fence) (LF # fence)"
proof (cases q)
  case Nil
  with assms(1) show ?thesis by simp
next
  case (Cons c s)
  with assms(2) have "\<not> (c = LF \<and> startsWith s fence)" by simp
  then have "\<not> (c = LF \<and> startsWith (s @ LF # fence) fence)"
    using no_straddle [of s fence LF fence] LF_not_in_patterns(2) by blast
  with Cons show ?thesis by simp
qed

lemma strip_fences_before_closing: "strip_fences (p @ LF # fence) = strip_fences p"
proof (induction p rule: length_induct)
  case (1 p)
  let ?suf = "LF # fence"
  let ?P1 = "fence @ ''json'' @ [LF]"
  let ?P2 = "fence @ ''json''"
  let ?x = "p @ ?suf"
  have IH: "strip_fences (r @ ?suf) = strip_fences r" if "length r < length p" for r
    using 1 that by blast
  show ?case
  proof (cases "p = []")
    case True
    then show ?thesis by (simp only: append_Nil strip_fences_closing strip_fences.simps(1))
  next
    case False
    then have x: "?x \<noteq> []" by simp
    note sp = strip_fences_nonempty [OF False]
    note sx = strip_fences_nonempty [OF x]
    consider (json_lf) "startsWith p ?P1"
      | (json) "\<not> startsWith p ?P1" "startsWith p ?P2"
      | (lf_fence) "\<not> startsWith p ?P1" "\<not> startsWith p ?P2" "startsWith p ?suf"
      | (bare) "\<not> startsWith p ?P1" "\<not> startsWith p ?P2" "\<not> startsWith p ?suf"
          "startsWith p fence"
      | (none) "\<not> startsWith p ?P1" "\<not> startsWith p ?P2" "\<not> startsWith p ?suf"
          "\<not> startsWith p fence"
      by blast
    then show ?thesis
    proof cases
      case json_lf
      then have "startsWith ?x ?P1" by (rule startsWith_appendI)
      moreover have "drop 8 ?x = drop 8 p @ ?suf"
        using startsWith_drop_append [OF json_lf, of ?suf] by (simp only: pattern_lengths)
      moreover have "length (drop 8 p) < length p" using False by simp
      ultimately show ?thesis using json_lf sp sx IH by simp
    next
      case json
      from json(2) have p: "p = ?P2 @ drop 7 p"
        using startsWith_append [of p ?P2] by (simp only: pattern_lengths)
      show ?thesis
      proof (cases "drop 7 p")
        case Nil
        with p have "p = ?P2" by simp
        then have xx: "?x = ?P1 @ fence" by simp
        have s1: "startsWith ?x ?P1" by (subst xx) (rule startsWith_self)
        have "drop 8 ?x = drop (length ?P1) (?P1 @ fence)"
          using xx by (simp only: pattern_lengths)
        also have "\<dots> = fence" by simp
        finally have "drop 8 ?x = fence" .
        with s1 have "strip_fences ?x = []"
          using sx by (simp add: strip_fences_closing)
        moreover have "strip_fences p = []"
          using sp json Nil by simp
        ultimately show ?thesis by simp
      next
        case (Cons d r')
        have d: "d \<noteq> LF"
        proof
          assume "d = LF"
          with p Cons have "p = ?P1 @ r'" by simp
          then have "startsWith p ?P1" by (metis startsWith_self)
          with json(1) show False by blast
        qed
        have "\<not> startsWith ?x ?P1"
        proof
          assume "startsWith ?x ?P1"
          then have "prefix (?P2 @ [LF]) (?P2 @ (d # r') @ ?suf)"
            using p Cons by (metis startsWith_prefix append_assoc)
          then have "prefix [LF] ((d # r') @ ?suf)" by (simp only: same_prefix_prefix)
          with d show False by simp
        qed
        moreover have "startsWith ?x ?P2" using json(2) by (rule startsWith_appendI)
        moreover have "drop 7 ?x = drop 7 p @ ?suf"
          using startsWith_drop_append [OF json(2), of ?suf] by (simp only: pattern_lengths)
        moreover have "length (drop 7 p) < length p" using False by simp
        ultimately show ?thesis using json sp sx IH by simp
      qed
    next
      case lf_fence
      have "\<not> startsWith ?x ?P2"
        using lf_fence(2) LF_not_in_patterns(1) by (rule no_straddle)
      then have "\<not> startsWith ?x ?P1"
        using startsWith_shorter [of ?x ?P2 "[LF]"] by auto
      moreover note \<open>\<not> startsWith ?x ?P2\<close>
      moreover have "startsWith ?x ?suf" using lf_fence(3) by (rule startsWith_appendI)
      moreover have "drop 4 ?x = drop 4 p @ ?suf"
        using startsWith_drop_append [OF lf_fence(3), of ?suf] by (simp only: pattern_lengths)
      moreover have "length (drop 4 p) < length p" using False by simp
      ultimately show ?thesis using lf_fence sp sx IH by simp
    next
      case bare
      have "\<not> startsWith ?x ?P2"
        using bare(2) LF_not_in_patterns(1) by (rule no_straddle)
      then have "\<not> startsWith ?x ?P1"
        using startsWith_shorter [of ?x ?P2 "[LF]"] by auto
      moreover note \<open>\<not> startsWith ?x ?P2\<close>
      moreover have "\<not> startsWith ?x ?suf"
        using False bare(3) by (rule no_straddle_closing)
      moreover have "startsWith ?x fence" using bare(4) by (rule startsWith_appendI)
      moreover have "drop 3 ?x = drop 3 p @ ?suf"
        using startsWith_drop_append [OF bare(4), of ?suf] by (simp only: pattern_lengths)
      moreover have "length (drop 3 p) < length p" using False by simp
      ultimately show ?thesis using bare sp sx IH by simp
    next
      case none
      have "\<not> startsWith ?x ?P2"
        using none(2) LF_not_in_patterns(1) by (rule no_straddle)
      then have "\<not> startsWith ?x ?P1"
        using startsWith_shorter [of ?x ?P2 "[LF]"] by auto
      moreover note \<open>\<not> startsWith ?x ?P2\<close>
      moreover have "\<not> startsWith ?x ?suf"
        using False none(3) by (rule no_straddle_closing)
      moreover have "\<not> startsWith ?x fence"
        using none(4) LF_not_in_patterns(2) by (rule no_straddle)
      moreover have "hd ?x = hd p" "tl ?x = tl p @ ?suf" using False by simp_all
      moreover have "length (tl p) < length p" using False by simp
      ultimately show ?thesis using none sp sx IH by simp
    qed
  qed
qed

lemma strip_fences_opening: "strip_fences (fence @ ''json'' @ [LF] @ r) = strip_fences r"
proof -
  let ?P1 = "fence @ ''json'' @ [LF]"
  have x: "?P1 @ r \<noteq> []" by (simp add: fence_def)
  have "startsWith (?P1 @ r) ?P1" by (rule startsWith_self)
  moreover have "drop 8 (?P1 @ r) = r"
  proof -
    have "drop 8 (?P1 @ r) = drop (length ?P1) (?P1 @ r)" by (simp only: pattern_lengths)
    also have "\<dots> = r" by simp
    finally show ?thesis .
  qed
  ultimately have "strip_fences (?P1 @ r) = strip_fences r"
    using strip_fences_nonempty [OF x] by simp
  then show ?thesis by simp
qed

text \<open>
  A payload between an opening \<^verbatim>\<open>```json\<close> line and a closing fence, with nothing before
  the opening fence, is read as the payload alone.
\<close>

lemma fenced_payload_same: "parseAIResponse (fenced payload) = parseAIResponse payload"
proof -
  have "strip_fences (fenced payload) = strip_fences (payload @ LF # fence)"
    unfolding fenced_def using strip_fences_opening [of "payload @ [LF] @ fence"] by simp
  then have "clean_response (fenced payload) = clean_response payload"
    by (simp add: clean_response_def strip_fences_before_closing)
  then show ?thesis by (simp add: parseAIResponse_def parse_try_def)
qed

text \<open>
  C9. The claim is that the fence markers are stripped from every response, so that a
  payload in a fenced block is read as the bare payload. With a line feed directly
  before the opening fence, the second alternative of the pattern matches first, at the
  line feed: it takes the line feed and the three backticks and leaves the word
  \<^verbatim>\<open>json\<close> before the payload, and the response is refused, while the bare payload is
  accepted.
\<close>

theorem fence_after_line_feed:
  "clean_response (LF # fenced response_ok) = ''json'' @ [LF] @ response_ok
   \<and> parseAIResponse (LF # fenced response_ok) = Inl MalformedResponse
   \<and> parseAIResponse response_ok =
       Inr (JObject [(units ''to'', JString (units ''0x2d6DA915F00dcA50b06a60fca010949382f4e0e8'')),
                     (units ''networks'', JArray [sepolia_request]),
                     (units ''explanation'', JString (units ''Sending 0.01 ETH''))])"
  by code_simp

end
